theory Spec2Isabelle
  imports Complex_Main "HOL-Library.Multiset"
begin

section \<open>Python values, errors and the external chemistry library\<close>

text \<open>
  The module \<^verbatim>\<open>matminer/descriptors/data.py\<close> wraps two sources of elemental
  properties. Strings are ASCII strings; Python exceptions are values of the type
  \<open>error\<close>, and a call that may raise returns \<open>error + 'a\<close> with \<open>Inl\<close> the exception.
\<close>

datatype pykey = SKey string | IKey int

datatype error =
    ValueError string "string list"  \<comment> \<open>message template and the arguments of its \<^verbatim>\<open>format\<close>\<close>
  | IndexError
  | KeyError pykey
  | AttributeError string
  | TypeError
  | IOError string
  | CompositionError string  \<comment> \<open>raised by the external formula parser\<close>

text \<open>A Python float: a finite value, not-a-number, or an infinity.\<close>

datatype pyfloat = Finite rat | NaN | PosInf | NegInf

text \<open>
  The value of an attribute read off an external \<^verbatim>\<open>Element\<close>: \<^verbatim>\<open>None\<close>, a number
  (the flag says whether it carries a \<^verbatim>\<open>unit\<close>), a table of ionic radii keyed by
  oxidation state, or any other object (one that \<^verbatim>\<open>float\<close> rejects).
\<close>

datatype attr =
    PyNone
  | Number pyfloat bool
  | Radii "(int \<times> pyfloat) list"
  | Obj

text \<open>
  A \<^verbatim>\<open>Composition\<close> object of the external library, as far as the module reads it:
  \<^verbatim>\<open>comp.elements\<close> (each species a symbol with an oxidation state when it is a
  decorated \<^verbatim>\<open>Specie\<close>) and the dictionary returned by \<^verbatim>\<open>comp.get_el_amt_dict()\<close>
  in its iteration order.
\<close>

record composition =
  elements :: "(string \<times> int option) list"
  get_el_amt_dict :: "(string \<times> rat) list"

text \<open>The argument \<^verbatim>\<open>comp\<close> of \<^verbatim>\<open>get_property\<close> (written \<open>cmp\<close> below): a formula
  string or a composition.\<close>

datatype comp_arg = Formula string | CompObj composition

text \<open>
  The external collaborators (the chemistry library, Python's \<^verbatim>\<open>float\<close>), taken as
  parameters:
  \<^item> \<open>parse_formula s\<close> is \<^verbatim>\<open>Composition(s)\<close> for a string \<open>s\<close>;
  \<^item> \<open>element_str s\<close> is \<^verbatim>\<open>str(Element(s))\<close>;
  \<^item> \<open>electroneg s\<close> is \<^verbatim>\<open>get_el_sp(s).X\<close>;
  \<^item> \<open>getattr_element s n\<close> is \<^verbatim>\<open>getattr(Element(s), n)\<close>, \<open>None\<close> when it raises
    \<^verbatim>\<open>AttributeError\<close>;
  \<^item> \<open>to_float s\<close> is \<^verbatim>\<open>float(s)\<close>, \<open>None\<close> when it raises \<^verbatim>\<open>ValueError\<close>;
  \<^item> \<open>pt_size\<close> is \<^verbatim>\<open>len(_pt_data)\<close> and \<open>from_Z z\<close> is \<^verbatim>\<open>str(Element.from_Z(z))\<close>;
  \<^item> \<open>read_table d\<close> is the list of lines read from the data file \<^verbatim>\<open>d.table\<close>.
\<close>

record lib =
  parse_formula :: "string \<Rightarrow> error + composition"
  element_str :: "string \<Rightarrow> error + string"
  electroneg :: "string \<Rightarrow> rat"
  getattr_element :: "string \<Rightarrow> string \<Rightarrow> attr option"
  to_float :: "string \<Rightarrow> pyfloat option"
  pt_size :: nat
  from_Z :: "nat \<Rightarrow> error + string"
  read_table :: "string \<Rightarrow> error + string list"

section \<open>String primitives\<close>

definition is_letter :: "char \<Rightarrow> bool" where
  "is_letter c \<longleftrightarrow>
     c \<in> set ''abcdefghijklmnopqrstuvwxyzABCDEFGHIJKLMNOPQRSTUVWXYZ''"

definition is_lower :: "char \<Rightarrow> bool" where
  "is_lower c \<longleftrightarrow> c \<in> set ''abcdefghijklmnopqrstuvwxyz''"

definition is_digit :: "char \<Rightarrow> bool" where
  "is_digit c \<longleftrightarrow> c \<in> set ''0123456789''"

definition is_sign :: "char \<Rightarrow> bool" where
  "is_sign c \<longleftrightarrow> c = CHR ''+'' \<or> c = CHR ''-''"

text \<open>Whitespace as \<^verbatim>\<open>str.strip()\<close> removes it: codes 9 to 13 and 28 to 32.\<close>

definition is_space :: "char \<Rightarrow> bool" where
  "is_space c \<longleftrightarrow>
     (let n = (of_char c :: nat) in (9 \<le> n \<and> n \<le> 13) \<or> (28 \<le> n \<and> n \<le> 32))"

definition strip :: "string \<Rightarrow> string" where
  "strip s = rev (dropWhile is_space (rev (dropWhile is_space s)))"

text \<open>
  \<^verbatim>\<open>re.split('[cls]+', s)\<close>: the pieces of \<open>s\<close> between the maximal runs of characters
  of the class, with an empty piece where \<open>s\<close> starts or ends with a run.
\<close>

function re_split :: "(char \<Rightarrow> bool) \<Rightarrow> string \<Rightarrow> string list" where
  "re_split P [] = [[]]"
| "re_split P (c # cs) =
     (if P c then [] # re_split P (dropWhile P cs)
      else (case re_split P cs of [] \<Rightarrow> [[c]] | p # ps \<Rightarrow> (c # p) # ps))"
  by pat_completeness auto
termination
  by (relation "measure (\<lambda>(P, s). length s)")
     (auto simp: le_imp_less_Suc length_dropWhile_le)

text \<open>\<^verbatim>\<open>re.split('[cls]', s)\<close>: a split at every single character of the class.\<close>

fun re_split1 :: "(char \<Rightarrow> bool) \<Rightarrow> string \<Rightarrow> string list" where
  "re_split1 P [] = [[]]"
| "re_split1 P (c # cs) =
     (if P c then [] # re_split1 P cs
      else (case re_split1 P cs of [] \<Rightarrow> [[c]] | p # ps \<Rightarrow> (c # p) # ps))"

text \<open>
  \<^verbatim>\<open>s.split(sep, 1)\<close> for a non-empty \<open>sep\<close>: the text before and after the first
  occurrence of \<open>sep\<close>, \<open>None\<close> when \<open>sep\<close> does not occur (Python then returns the
  one-element list \<^verbatim>\<open>[s]\<close>).
\<close>

fun split_first :: "string \<Rightarrow> string \<Rightarrow> (string \<times> string) option" where
  "split_first sep [] = (if sep = [] then Some ([], []) else None)"
| "split_first sep (c # cs) =
     (if take (length sep) (c # cs) = sep then Some ([], drop (length sep) (c # cs))
      else (case split_first sep cs of
              None \<Rightarrow> None
            | Some (b, a) \<Rightarrow> Some (c # b, a)))"

text \<open>
  \<^verbatim>\<open>before, after = tuple(s.split(sep, 1))\<close>: an empty separator is a \<^verbatim>\<open>ValueError\<close>
  of \<^verbatim>\<open>split\<close>, a missing separator a \<^verbatim>\<open>ValueError\<close> of the unpacking.
\<close>

definition split_unpack :: "string \<Rightarrow> string \<Rightarrow> error + (string \<times> string)" where
  "split_unpack s sep =
     (if sep = [] then Inl (ValueError ''empty separator'' [])
      else (case split_first sep s of
              None \<Rightarrow> Inl (ValueError ''need more than 1 value to unpack'' [])
            | Some p \<Rightarrow> Inr p))"

text \<open>\<^verbatim>\<open>int(s)\<close> on a string: blanks trimmed, an optional sign, then decimal digits.\<close>

definition digit_val :: "char \<Rightarrow> int" where
  "digit_val c = int (of_char c) - 48"

definition digits_val :: "string \<Rightarrow> int" where
  "digits_val ds = foldl (\<lambda>acc d. 10 * acc + digit_val d) 0 ds"

definition py_int_of_str :: "string \<Rightarrow> error + int" where
  "py_int_of_str s =
     (let t = strip s;
          bad = Inl (ValueError ''invalid literal for int() with base 10: {!r}'' [s])
      in case t of
           [] \<Rightarrow> bad
         | c # ds \<Rightarrow>
             if is_sign c then
               (if ds \<noteq> [] \<and> list_all is_digit ds
                then Inr ((if c = CHR ''-'' then - 1 else 1) * digits_val ds) else bad)
             else if list_all is_digit t then Inr (digits_val t) else bad)"

section \<open>The oxidation-state parser\<close>

text \<open>
  The body of the first loop of \<^verbatim>\<open>get_composition_oxidation_state\<close> for one
  stripped segment \<open>s\<close>: \<^verbatim>\<open>sign[-1]\<close> followed by \<^verbatim>\<open>digits[-1].strip()\<close>.
\<close>

definition ox_token :: "string \<Rightarrow> error + string" where
  "ox_token s =
     (let digits = re_split is_sign s;
          sign_tmp = re_split is_digit s;
          sign = map strip (filter (\<lambda>x. strip x \<noteq> []) sign_tmp)
      in if sign = [] \<or> digits = [] then Inl IndexError
         else Inr (last sign @ strip (last digits)))"

fun collect_tokens :: "string list \<Rightarrow> error + string list" where
  "collect_tokens [] = Inr []"
| "collect_tokens (na # nas) =
     (let s = strip na in
      if s \<noteq> [] \<and> (CHR ''+'' \<in> set s \<or> CHR ''-'' \<in> set s) then
        (case ox_token s of
           Inl e \<Rightarrow> Inl e
         | Inr t \<Rightarrow> (case collect_tokens nas of Inl e \<Rightarrow> Inl e | Inr ts \<Rightarrow> Inr (t # ts)))
      else collect_tokens nas)"

text \<open>
  The second part: \<open>formula_plain\<close> collects the text before each token, searched in
  what follows the previous token; the text after the last token is not collected.
\<close>

fun split_plain :: "string \<Rightarrow> string list \<Rightarrow> error + string list" where
  "split_plain after [] = Inr []"
| "split_plain after (oxs # rest) =
     (case split_unpack after oxs of
        Inl e \<Rightarrow> Inl e
      | Inr (before, after') \<Rightarrow>
          (case split_plain after' rest of
             Inl e \<Rightarrow> Inl e
           | Inr bs \<Rightarrow> Inr (before # bs)))"

text \<open>
  The last loop: for each piece, the text before its first digit names the element;
  the right-hand side \<^verbatim>\<open>int(oxidation_states[i])\<close> is evaluated before the key.
  The dictionary is an association list in insertion order.
\<close>

definition dict_set :: "'k \<Rightarrow> 'v \<Rightarrow> ('k \<times> 'v) list \<Rightarrow> ('k \<times> 'v) list" where
  "dict_set k v d =
     (if k \<in> fst ` set d then map (\<lambda>(k', v'). if k' = k then (k', v) else (k', v')) d
      else d @ [(k, v)])"

fun build_dict ::
  "lib \<Rightarrow> (string \<times> string) list \<Rightarrow> (string \<times> int) list \<Rightarrow> error + (string \<times> int) list"
where
  "build_dict L [] d = Inr d"
| "build_dict L ((g, oxs) # rest) d =
     (let el = (case re_split1 is_digit (strip g) of [] \<Rightarrow> [] | p # _ \<Rightarrow> p) in
      case py_int_of_str oxs of
        Inl e \<Rightarrow> Inl e
      | Inr v \<Rightarrow>
          (case element_str L el of
             Inl e \<Rightarrow> Inl e
           | Inr k \<Rightarrow> build_dict L rest (dict_set k v d)))"

definition with_states ::
  "lib \<Rightarrow> string \<Rightarrow> (string \<times> int) list \<Rightarrow> error + (composition \<times> (string \<times> int) list)"
where
  "with_states L s d = (case parse_formula L s of Inl e \<Rightarrow> Inl e | Inr c \<Rightarrow> Inr (c, d))"

definition get_composition_oxidation_state ::
  "lib \<Rightarrow> string \<Rightarrow> error + (composition \<times> (string \<times> int) list)"
where
  "get_composition_oxidation_state L formula =
     (let non_alphabets = re_split is_letter formula in
      if non_alphabets = [] then with_states L formula []
      else
        (case collect_tokens non_alphabets of
           Inl e \<Rightarrow> Inl e
         | Inr oxidation_states \<Rightarrow>
             if oxidation_states = [] then with_states L formula []
             else
               (case split_plain formula oxidation_states of
                  Inl e \<Rightarrow> Inl e
                | Inr formula_plain \<Rightarrow>
                    (case build_dict L (zip formula_plain oxidation_states) [] of
                       Inl e \<Rightarrow> Inl e
                     | Inr d \<Rightarrow> with_states L (concat formula_plain) d))))"

section \<open>The table of Magpie data\<close>

text \<open>
  A cell of the table: a float, or the list of floats of the property
  \<^verbatim>\<open>OxidationStates\<close>. The table \<^verbatim>\<open>all_elemental_props\<close> is a
  \<^verbatim>\<open>defaultdict(dict)\<close>: every property name has a row, empty by default.
\<close>

datatype cell = Scalar pyfloat | FloatList "pyfloat list"

type_synonym table = "string \<Rightarrow> (string \<rightharpoonup> cell)"

record magpie =
  all_elemental_props :: table
  available_props :: "string list"

text \<open>\<^verbatim>\<open>line.split()\<close>: the non-empty pieces between runs of whitespace.\<close>

definition split_ws :: "string \<Rightarrow> string list" where
  "split_ws s = filter (\<lambda>x. x \<noteq> []) (re_split is_space s)"

fun floats :: "lib \<Rightarrow> string list \<Rightarrow> pyfloat list option" where
  "floats L [] = Some []"
| "floats L (w # ws) =
     (case to_float L w of
        None \<Rightarrow> None
      | Some x \<Rightarrow> (case floats L ws of None \<Rightarrow> None | Some xs \<Rightarrow> Some (x # xs)))"

text \<open>The \<^verbatim>\<open>try\<close> block of \<^verbatim>\<open>_parse\<close> on a line that exists: a \<^verbatim>\<open>ValueError\<close> gives NaN.\<close>

definition parse_line :: "lib \<Rightarrow> string \<Rightarrow> string \<Rightarrow> cell" where
  "parse_line L descriptor_name line =
     (if descriptor_name \<in> set [''OxidationStates''] then
        (case floats L (split_ws line) of None \<Rightarrow> Scalar NaN | Some xs \<Rightarrow> FloatList xs)
      else (case to_float L line of None \<Rightarrow> Scalar NaN | Some x \<Rightarrow> Scalar x))"

definition store :: "table \<Rightarrow> string \<Rightarrow> string \<Rightarrow> cell \<Rightarrow> table" where
  "store t d el v = t(d := (t d)(el \<mapsto> v))"

text \<open>
  The inner loop over the atomic numbers: \<^verbatim>\<open>lines[atomic_no - 1]\<close> raises
  \<^verbatim>\<open>IndexError\<close> past the end of the file, which the \<^verbatim>\<open>except ValueError\<close> does
  not catch.
\<close>

fun parse_atoms :: "lib \<Rightarrow> string \<Rightarrow> string list \<Rightarrow> nat list \<Rightarrow> table \<Rightarrow> error + table" where
  "parse_atoms L d lines [] t = Inr t"
| "parse_atoms L d lines (atomic_no # zs) t =
     (if atomic_no - 1 < length lines then
        (let prop_value = parse_line L d (lines ! (atomic_no - 1)) in
         case from_Z L atomic_no of
           Inl e \<Rightarrow> Inl e
         | Inr el \<Rightarrow> parse_atoms L d lines zs (store t d el prop_value))
      else Inl IndexError)"

fun parse_props :: "lib \<Rightarrow> string list \<Rightarrow> table \<Rightarrow> error + table" where
  "parse_props L [] t = Inr t"
| "parse_props L (descriptor_name # ds) t =
     (case read_table L descriptor_name of
        Inl e \<Rightarrow> Inl e
      | Inr lines \<Rightarrow>
          (case parse_atoms L descriptor_name lines [1 ..< pt_size L + 1] t of
             Inl e \<Rightarrow> Inl e
           | Inr t' \<Rightarrow> parse_props L ds t'))"

definition magpie_parse :: "lib \<Rightarrow> magpie \<Rightarrow> error + magpie" where
  "magpie_parse L self =
     (case parse_props L (available_props self) (all_elemental_props self) of
        Inl e \<Rightarrow> Inl e
      | Inr t \<Rightarrow> Inr (self\<lparr>all_elemental_props := t\<rparr>))"

text \<open>The constructor, given the property names found in the data directory.\<close>

definition magpie_init :: "lib \<Rightarrow> string list \<Rightarrow> error + magpie" where
  "magpie_init L props =
     magpie_parse L \<lparr>all_elemental_props = (\<lambda>_. Map.empty), available_props = props\<rparr>"

section \<open>Ordering and expansion\<close>

text \<open>\<^verbatim>\<open>Composition(comp)\<close>: a string is parsed, a composition is taken as it is.\<close>

definition Composition :: "lib \<Rightarrow> comp_arg \<Rightarrow> error + composition" where
  "Composition L cmp = (case cmp of Formula s \<Rightarrow> parse_formula L s | CompObj c \<Rightarrow> Inr c)"

text \<open>\<^verbatim>\<open>el_amt[el]\<close> on the \<^verbatim>\<open>defaultdict(float)\<close> of amounts.\<close>

definition amount :: "(string \<times> rat) list \<Rightarrow> string \<Rightarrow> rat" where
  "amount el_amt el = (case map_of el_amt el of None \<Rightarrow> 0 | Some a \<Rightarrow> a)"

text \<open>\<^verbatim>\<open>int(a)\<close> on a float truncates towards zero.\<close>

definition py_int :: "rat \<Rightarrow> int" where
  "py_int a = (if 0 \<le> a then \<lfloor>a\<rfloor> else \<lceil>a\<rceil>)"

text \<open>\<^verbatim>\<open>sorted(el_amt.keys(), key=lambda sym: get_el_sp(sym).X)\<close>, a stable sort.\<close>

definition symbols_of :: "lib \<Rightarrow> (string \<times> rat) list \<Rightarrow> string list" where
  "symbols_of L el_amt = sort_key (electroneg L) (map fst el_amt)"

section \<open>The table-backed source\<close>

definition unavailable :: string where
  "unavailable =
     ''This descriptor is not available from the Magpie repository. Choose from {}''"

text \<open>
  The list comprehension of \<^verbatim>\<open>MagpieData.get_property\<close>: the table is read once for
  each atom, so an element with no atom is never looked up.
\<close>

fun magpie_values ::
  "(string \<rightharpoonup> cell) \<Rightarrow> (string \<times> rat) list \<Rightarrow> string list \<Rightarrow> error + cell list"
where
  "magpie_values row el_amt [] = Inr []"
| "magpie_values row el_amt (el # els) =
     (let n = nat (py_int (amount el_amt el)) in
      if n = 0 then magpie_values row el_amt els
      else
        (case row el of
           None \<Rightarrow> Inl (KeyError (SKey el))
         | Some v \<Rightarrow>
             (case magpie_values row el_amt els of
                Inl e \<Rightarrow> Inl e
              | Inr vs \<Rightarrow> Inr (replicate n v @ vs))))"

definition magpie_get_property :: "lib \<Rightarrow> magpie \<Rightarrow> comp_arg \<Rightarrow> string \<Rightarrow> error + cell list" where
  "magpie_get_property L self cmp property_name =
     (case Composition L cmp of
        Inl e \<Rightarrow> Inl e
      | Inr c \<Rightarrow>
          if property_name \<notin> set (available_props self)
          then Inl (ValueError unavailable (available_props self))
          else
            (let el_amt = get_el_amt_dict c;
                 symbols = symbols_of L el_amt
             in magpie_values (all_elemental_props self property_name) el_amt symbols))"

section \<open>The live-attribute source\<close>

definition unitless :: "string list" where
  "unitless = [''X'', ''Z'', ''group'', ''row'', ''number'', ''mendeleev_no'', ''ionic_radii'']"

definition no_oxidation_state :: string where
  "no_oxidation_state =
     ''oxidation state not given for {}; It does not yield a unique number per Element''"

text \<open>\<^verbatim>\<open>float(p)\<close> and \<^verbatim>\<open>p.unit\<close> on an attribute value that is not \<^verbatim>\<open>None\<close>.\<close>

definition py_float :: "attr \<Rightarrow> error + pyfloat" where
  "py_float p = (case p of Number x u \<Rightarrow> Inr x | _ \<Rightarrow> Inl TypeError)"

definition unit_of :: "attr \<Rightarrow> error + unit" where
  "unit_of p =
     (case p of
        Number x u \<Rightarrow> if u then Inr () else Inl (AttributeError ''unit'')
      | _ \<Rightarrow> Inl (AttributeError ''unit''))"

text \<open>
  \<^verbatim>\<open>element.ionic_radii[oxidation_states[el_sym]]\<close>: both lookups raise
  \<^verbatim>\<open>KeyError\<close> on a missing key. In the library the attribute is a dictionary; on
  any other value the subscript is a \<^verbatim>\<open>TypeError\<close>.
\<close>

definition ionic_radius :: "attr \<Rightarrow> (string \<times> int) list \<Rightarrow> string \<Rightarrow> error + pyfloat" where
  "ionic_radius p oxidation_states el_sym =
     (case map_of oxidation_states el_sym of
        None \<Rightarrow> Inl (KeyError (SKey el_sym))
      | Some q \<Rightarrow>
          (case p of
             Radii r \<Rightarrow> (case map_of r q of None \<Rightarrow> Inl (KeyError (IKey q)) | Some x \<Rightarrow> Inr x)
           | _ \<Rightarrow> Inl TypeError))"

text \<open>
  The body of the loop of \<^verbatim>\<open>PymatgenData.get_property\<close> up to the bookkeeping
  tuple, for one element: the lines printed and the value \<^verbatim>\<open>property_value\<close>
  (\<open>None\<close> is Python's \<^verbatim>\<open>None\<close>) or the exception.
\<close>

definition resolve ::
  "lib \<Rightarrow> (string \<times> int) list \<Rightarrow> string \<Rightarrow> string \<Rightarrow> string list \<times> (error + pyfloat option)"
where
  "resolve L oxidation_states property_name el_sym =
     (case getattr_element L el_sym property_name of
        None \<Rightarrow> ([property_name @ '' attribute missing''], Inl (AttributeError property_name))
      | Some p \<Rightarrow>
          ([],
           if p \<noteq> PyNone then
             (case (if property_name \<in> set [''ionic_radii''] then
                      (if oxidation_states \<noteq> [] then ionic_radius p oxidation_states el_sym
                       else Inl (ValueError no_oxidation_state [property_name]))
                    else py_float p) of
                Inl e \<Rightarrow> Inl e
              | Inr x \<Rightarrow>
                  if property_name \<notin> set unitless then
                    (case unit_of p of Inl e \<Rightarrow> Inl e | Inr _ \<Rightarrow> Inr (Some x))
                  else Inr (Some x))
           else Inr None))"

fun pymatgen_loop ::
  "lib \<Rightarrow> (string \<times> int) list \<Rightarrow> (string \<times> rat) list \<Rightarrow> string \<Rightarrow> string list \<Rightarrow>
     string list \<times> (error + pyfloat option list)"
where
  "pymatgen_loop L oxs el_amt property_name [] = ([], Inr [])"
| "pymatgen_loop L oxs el_amt property_name (el_sym # els) =
     (case resolve L oxs property_name el_sym of
        (out, Inl e) \<Rightarrow> (out, Inl e)
      | (out, Inr property_value) \<Rightarrow>
          (case pymatgen_loop L oxs el_amt property_name els of
             (out', Inl e) \<Rightarrow> (out @ out', Inl e)
           | (out', Inr vs) \<Rightarrow>
               (out @ out',
                Inr (replicate (nat (py_int (amount el_amt el_sym))) property_value @ vs))))"

text \<open>
  The oxidation states of a composition of decorated species: \<^verbatim>\<open>dict\<close> of the
  pairs \<^verbatim>\<open>(str(sp.element), sp.oxi_state)\<close>; a plain element among them has no
  attribute \<^verbatim>\<open>element\<close>.
\<close>

fun species_states ::
  "(string \<times> int option) list \<Rightarrow> (string \<times> int) list \<Rightarrow> error + (string \<times> int) list"
where
  "species_states [] d = Inr d"
| "species_states ((el, None) # sps) d = Inl (AttributeError ''element'')"
| "species_states ((el, Some q) # sps) d = species_states sps (dict_set el q d)"

definition oxidation_context ::
  "lib \<Rightarrow> comp_arg \<Rightarrow> error + ((string \<times> int) list \<times> (string \<times> rat) list)"
where
  "oxidation_context L cmp =
     (case cmp of
        CompObj c \<Rightarrow>
          (case elements c of
             [] \<Rightarrow> Inl IndexError
           | sp # _ \<Rightarrow>
               if snd sp \<noteq> None then
                 (case species_states (elements c) [] of
                    Inl e \<Rightarrow> Inl e
                  | Inr d \<Rightarrow> Inr (d, get_el_amt_dict c))
               else Inr ([], get_el_amt_dict c))
      | Formula s \<Rightarrow>
          (case get_composition_oxidation_state L s of
             Inl e \<Rightarrow> Inl e
           | Inr (c, d) \<Rightarrow> Inr (d, get_el_amt_dict c)))"

definition pymatgen_get_property ::
  "lib \<Rightarrow> comp_arg \<Rightarrow> string \<Rightarrow> string list \<times> (error + pyfloat option list)"
where
  "pymatgen_get_property L cmp property_name =
     (case oxidation_context L cmp of
        Inl e \<Rightarrow> ([], Inl e)
      | Inr (oxidation_states, el_amt_dict) \<Rightarrow>
          pymatgen_loop L oxidation_states el_amt_dict property_name
            (symbols_of L el_amt_dict))"

section \<open>The expansion as the specification words it\<close>

text \<open>
  The number of atoms of an element is the floor of its amount, and the flat result
  repeats the value of each element of an ordered list that many times.
\<close>

definition atoms :: "(string \<times> rat) list \<Rightarrow> string \<Rightarrow> nat" where
  "atoms el_amt el = nat \<lfloor>amount el_amt el\<rfloor>"

definition expansion :: "string list \<Rightarrow> (string \<Rightarrow> nat) \<Rightarrow> (string \<Rightarrow> 'v) \<Rightarrow> 'v list" where
  "expansion ord cnt val = concat (map (\<lambda>el. replicate (cnt el) (val el)) ord)"

text \<open>The ionic radius of an element keyed by its oxidation state, when both exist.\<close>

definition radius_by_state :: "lib \<Rightarrow> (string \<times> int) list \<Rightarrow> string \<Rightarrow> pyfloat option" where
  "radius_by_state L oxidation_states el =
     (case map_of oxidation_states el of
        None \<Rightarrow> None
      | Some q \<Rightarrow>
          (case getattr_element L el ''ionic_radii'' of
             Some (Radii r) \<Rightarrow> map_of r q
           | _ \<Rightarrow> None))"

text \<open>
  Table construction in the words of the specification: the numeric parse of a line
  fails when \<^verbatim>\<open>float\<close> rejects the line (or, for the oxidation states, one of its
  words); otherwise the parsed value is the float, or the list of floats.
\<close>

definition parse_fails :: "lib \<Rightarrow> string \<Rightarrow> string \<Rightarrow> bool" where
  "parse_fails L d line \<longleftrightarrow>
     (if d = ''OxidationStates'' then \<exists>w\<in>set (split_ws line). to_float L w = None
      else to_float L line = None)"

definition parsed_value :: "lib \<Rightarrow> string \<Rightarrow> string \<Rightarrow> cell" where
  "parsed_value L d line =
     (if d = ''OxidationStates'' then FloatList (map (\<lambda>w. the (to_float L w)) (split_ws line))
      else Scalar (the (to_float L line)))"

text \<open>
  The table after the loops of \<^verbatim>\<open>_parse\<close> have run to their end, for the lines
  \<open>rd d\<close> of each file and the symbol \<open>sy z\<close> of each atomic number.
\<close>

definition fill_row ::
  "lib \<Rightarrow> (nat \<Rightarrow> string) \<Rightarrow> string \<Rightarrow> string list \<Rightarrow> nat list \<Rightarrow> table \<Rightarrow> table"
where
  "fill_row L sy d lines zs t =
     foldl (\<lambda>t z. store t d (sy z) (parse_line L d (lines ! (z - 1)))) t zs"

definition fill_table ::
  "lib \<Rightarrow> (nat \<Rightarrow> string) \<Rightarrow> (string \<Rightarrow> string list) \<Rightarrow> string list \<Rightarrow> table \<Rightarrow> table"
where
  "fill_table L sy rd ds t =
     foldl (\<lambda>t d. fill_row L sy d (rd d) [1 ..< pt_size L + 1] t) t ds"

text \<open>The amounts of \<^verbatim>\<open>Fe2O3\<close>, in either iteration order of the dictionary.\<close>

definition fe2o3_amounts :: "(string \<times> rat) list \<Rightarrow> bool" where
  "fe2o3_amounts d \<longleftrightarrow> d = [(''Fe'', 2), (''O'', 3)] \<or> d = [(''O'', 3), (''Fe'', 2)]"

section \<open>The oxidation-state parser as the specification words it\<close>

text \<open>
  The token of a segment: its trailing run of digits, preceded by the character
  immediately before that run.
\<close>

definition spec_token :: "string \<Rightarrow> string" where
  "spec_token seg =
     (let ds = rev (takeWhile is_digit (rev seg));
          pre = rev (dropWhile is_digit (rev seg))
      in (if pre = [] then [] else [last pre]) @ ds)"

text \<open>
  Removing the first occurrence of each token, in order, cuts the formula into the
  pieces between the tokens; the plain formula is what remains, all pieces together.
\<close>

fun spec_pieces :: "string \<Rightarrow> string list \<Rightarrow> string list" where
  "spec_pieces s [] = [s]"
| "spec_pieces s (t # ts) =
     (case split_first t s of None \<Rightarrow> [s] | Some (b, a) \<Rightarrow> b # spec_pieces a ts)"

text \<open>The signed integer that a token such as \<^verbatim>\<open>+3\<close> or \<^verbatim>\<open>-2\<close> denotes.\<close>

definition token_value :: "string \<Rightarrow> int" where
  "token_value t =
     (case t of [] \<Rightarrow> 0 | c # ds \<Rightarrow> if c = CHR ''-'' then - digits_val ds else digits_val ds)"

text \<open>Each piece maps its leading run of letters to the value of its token.\<close>

definition spec_states :: "(string \<times> string) list \<Rightarrow> (string \<times> int) list" where
  "spec_states pts =
     foldl (\<lambda>d (g, t). dict_set (takeWhile is_letter g) (token_value t) d) [] pts"

text \<open>
  The whole algorithm, for a class \<open>cls\<close> of the letters whose runs separate the
  segments; without tokens the formula is parsed as it is.
\<close>

definition spec_parse ::
  "(char \<Rightarrow> bool) \<Rightarrow> lib \<Rightarrow> string \<Rightarrow> error + (composition \<times> (string \<times> int) list)"
where
  "spec_parse cls L formula =
     (let segments = filter (\<lambda>s. CHR ''+'' \<in> set s \<or> CHR ''-'' \<in> set s) (re_split cls formula);
          tokens = map spec_token segments
      in if tokens = [] then with_states L formula []
         else
           (let pieces = spec_pieces formula tokens
            in with_states L (concat pieces) (spec_states (zip pieces tokens))))"

text \<open>
  The formulas of the documentation are sequences of groups: an element symbol, the
  digits of its amount (possibly none), a sign and the digits of the oxidation state.
\<close>

datatype group = Group (g_sym: string) (g_amt: string) (g_sign: char) (g_ox: string)

definition wf_group :: "lib \<Rightarrow> group \<Rightarrow> bool" where
  "wf_group L g \<longleftrightarrow>
     g_sym g \<noteq> [] \<and> list_all is_letter (g_sym g) \<and> element_str L (g_sym g) = Inr (g_sym g) \<and>
     list_all is_digit (g_amt g) \<and> is_sign (g_sign g) \<and>
     g_ox g \<noteq> [] \<and> list_all is_digit (g_ox g)"

definition g_seg :: "group \<Rightarrow> string" where
  "g_seg g = g_amt g @ g_sign g # g_ox g"

definition g_tok :: "group \<Rightarrow> string" where
  "g_tok g = g_sign g # g_ox g"

definition g_plain :: "group \<Rightarrow> string" where
  "g_plain g = g_sym g @ g_amt g"

definition formula_of :: "group list \<Rightarrow> string" where
  "formula_of gs = concat (map (\<lambda>g. g_plain g @ g_tok g) gs)"

definition states_of :: "group list \<Rightarrow> (string \<times> int) list" where
  "states_of gs = foldl (\<lambda>d g. dict_set (g_sym g) (token_value (g_tok g)) d) [] gs"

definition plain_of :: "group list \<Rightarrow> string" where
  "plain_of gs = concat (map g_plain gs)"

section \<open>A small instance of the external library\<close>

text \<open>
  Four elements with their Pauling electronegativities, three attributes, a periodic
  table of two elements and three data files, for evaluating the functions.
\<close>

definition fe2o3 :: composition where
  "fe2o3 = \<lparr>elements = [(''Fe'', None), (''O'', None)],
            get_el_amt_dict = [(''Fe'', 2), (''O'', 3)]\<rparr>"

definition nacl :: composition where
  "nacl = \<lparr>elements = [(''Na'', None), (''Cl'', None)],
           get_el_amt_dict = [(''Na'', 1), (''Cl'', 1)]\<rparr>"

definition o3fe2 :: composition where
  "o3fe2 = \<lparr>elements = [(''O'', None), (''Fe'', None)],
            get_el_amt_dict = [(''O'', 3), (''Fe'', 2)]\<rparr>"

definition empty_comp :: composition where
  "empty_comp = \<lparr>elements = [], get_el_amt_dict = []\<rparr>"

definition demo_parse :: "string \<Rightarrow> error + composition" where
  "demo_parse s =
     (if s = ''Fe2O3'' then Inr fe2o3
      else if s = ''NaCl'' then Inr nacl
      else if s = ''O3Fe2'' then Inr o3fe2
      else if s = [] then Inr empty_comp
      else Inl (CompositionError s))"

definition demo_element :: "string \<Rightarrow> error + string" where
  "demo_element s =
     (if s \<in> set [''Fe'', ''O'', ''Na'', ''Cl''] then Inr s
      else Inl (ValueError ''{!r} is not a valid Element'' [s]))"

definition demo_X :: "string \<Rightarrow> rat" where
  "demo_X s =
     (if s = ''Fe'' then 183 / 100 else if s = ''O'' then 344 / 100
      else if s = ''Na'' then 93 / 100 else if s = ''Cl'' then 316 / 100 else 0)"

definition demo_getattr :: "string \<Rightarrow> string \<Rightarrow> attr option" where
  "demo_getattr el n =
     (if n = ''X'' then Some (Number (Finite (demo_X el)) False)
      else if n = ''ionic_radii'' then
        Some (Radii (if el = ''Fe'' then [(2, Finite (92 / 100)), (3, Finite (785 / 1000))]
                     else if el = ''O'' then [(- 2, Finite (126 / 100))] else []))
      else if n = ''bulk_modulus'' then
        Some (if el = ''Fe'' then Number (Finite 170) True else PyNone)
      else None)"

definition demo_float :: "string \<Rightarrow> pyfloat option" where
  "demo_float s =
     (if s = ''1.0'' then Some (Finite 1) else if s = ''4.0'' then Some (Finite 4)
      else if s = ''2'' then Some (Finite 2) else if s = ''-1'' then Some (Finite (- 1))
      else if s = ''nan'' then Some NaN else None)"

definition demo_from_Z :: "nat \<Rightarrow> error + string" where
  "demo_from_Z z =
     (if z = 1 then Inr ''H'' else if z = 2 then Inr ''He''
      else Inl (ValueError ''No element with this atomic number {}'' []))"

definition demo_files :: "string \<Rightarrow> error + string list" where
  "demo_files d =
     (if d = ''Number'' then Inr [''1.0'', ''two'']
      else if d = ''OxidationStates'' then Inr [''1.0 -1'', ''2 x'']
      else if d = ''Short'' then Inr [''1.0'']
      else Inl (IOError d))"

text \<open>The lines of the three data files and the symbols of the two elements.\<close>

definition demo_lines :: "string \<Rightarrow> string list" where
  "demo_lines d =
     (if d = ''Number'' then [''1.0'', ''two'']
      else if d = ''OxidationStates'' then [''1.0 -1'', ''2 x'']
      else [''1.0''])"

definition demo_symbol :: "nat \<Rightarrow> string" where
  "demo_symbol z = (if z = 1 then ''H'' else ''He'')"

text \<open>The groups of \<^verbatim>\<open>"Fe2+3O3-2"\<close>.\<close>

definition fe2o3_groups :: "group list" where
  "fe2o3_groups = [Group ''Fe'' ''2'' CHR ''+'' ''3'', Group ''O'' ''3'' CHR ''-'' ''2'']"

definition demo_lib :: lib where
  "demo_lib = \<lparr>parse_formula = demo_parse, element_str = demo_element,
               electroneg = demo_X, getattr_element = demo_getattr,
               to_float = demo_float, pt_size = 2, from_Z = demo_from_Z,
               read_table = demo_files\<rparr>"

definition demo_magpie :: magpie where
  "demo_magpie =
     \<lparr>all_elemental_props =
        (\<lambda>p. if p = ''Number''
              then [''Fe'' \<mapsto> Scalar (Finite 26), ''O'' \<mapsto> Scalar (Finite 8)]
              else Map.empty),
      available_props = [''Number'', ''OxidationStates'']\<rparr>"

section \<open>Facts about the string primitives\<close>

lemma re_split_chars: "p \<in> set (re_split P s) \<Longrightarrow> set p \<subseteq> set s"
proof (induction P s arbitrary: p rule: re_split.induct)
  case (1 P)
  then show ?case by simp
next
  case (2 P c cs)
  show ?case
  proof (cases "P c")
    case True
    with "2.prems" have "p = [] \<or> p \<in> set (re_split P (dropWhile P cs))" by simp
    then show ?thesis
    proof
      assume "p = []" then show ?thesis by simp
    next
      assume "p \<in> set (re_split P (dropWhile P cs))"
      then have "set p \<subseteq> set (dropWhile P cs)" using "2.IH"(1) [OF True] by blast
      moreover have "set (dropWhile P cs) \<subseteq> set cs" by (auto dest: set_dropWhileD)
      ultimately show ?thesis by auto
    qed
  next
    case False
    note IH = "2.IH"(2) [OF False]
    show ?thesis
    proof (cases "re_split P cs")
      case Nil
      with "2.prems" False show ?thesis by simp
    next
      case (Cons q qs)
      with "2.prems" False have "p = c # q \<or> p \<in> set qs" by simp
      then show ?thesis
      proof
        assume "p = c # q"
        moreover have "set q \<subseteq> set cs" using IH [of q] Cons by simp
        ultimately show ?thesis by auto
      next
        assume "p \<in> set qs"
        then have "set p \<subseteq> set cs" using IH [of p] Cons by simp
        then show ?thesis by auto
      qed
    qed
  qed
qed

lemma strip_chars: "set (strip s) \<subseteq> set s"
proof -
  have "set (strip s) \<subseteq> set (dropWhile is_space s)"
    unfolding strip_def by (auto dest: set_dropWhileD)
  also have "\<dots> \<subseteq> set s" by (auto dest: set_dropWhileD)
  finally show ?thesis .
qed

lemma collect_tokens_unsigned:
  "\<forall>na\<in>set nas. CHR ''+'' \<notin> set na \<and> CHR ''-'' \<notin> set na \<Longrightarrow> collect_tokens nas = Inr []"
proof (induction nas)
  case Nil
  then show ?case by simp
next
  case (Cons na nas)
  then have "CHR ''+'' \<notin> set (strip na)" "CHR ''-'' \<notin> set (strip na)"
    using strip_chars [of na] by auto
  with Cons show ?case by simp
qed

lemma state_unsigned:
  assumes "CHR ''+'' \<notin> set formula" and "CHR ''-'' \<notin> set formula"
  shows "get_composition_oxidation_state L formula =
           (case parse_formula L formula of Inl e \<Rightarrow> Inl e | Inr c \<Rightarrow> Inr (c, []))"
proof -
  have "\<forall>na\<in>set (re_split is_letter formula). CHR ''+'' \<notin> set na \<and> CHR ''-'' \<notin> set na"
    using assms re_split_chars by blast
  then have "collect_tokens (re_split is_letter formula) = Inr []"
    by (rule collect_tokens_unsigned)
  then show ?thesis
    by (simp add: get_composition_oxidation_state_def with_states_def Let_def)
qed

lemma demo_lib_sel:
  "parse_formula demo_lib = demo_parse" "element_str demo_lib = demo_element"
  "electroneg demo_lib = demo_X" "getattr_element demo_lib = demo_getattr"
  "to_float demo_lib = demo_float" "pt_size demo_lib = 2" "from_Z demo_lib = demo_from_Z"
  "read_table demo_lib = demo_files"
  by (simp_all add: demo_lib_def)

section \<open>The oxidation-state parser on the documented examples\<close>

text \<open>
  C2: parsing \<^verbatim>\<open>"Fe2+3O3-2"\<close> gives the oxidation states Fe: 3 and O: -2 together
  with the composition of the plain formula \<^verbatim>\<open>"Fe2O3"\<close>, whenever the library knows
  the two elements and parses the plain formula.
\<close>

theorem parse_Fe2O3_states:
  assumes "element_str L ''Fe'' = Inr ''Fe''"
    and "element_str L ''O'' = Inr ''O''"
    and "parse_formula L ''Fe2O3'' = Inr c"
  shows "get_composition_oxidation_state L ''Fe2+3O3-2'' =
           Inr (c, [(''Fe'', 3), (''O'', - 2)])"
  using assms
  by (simp add: get_composition_oxidation_state_def is_letter_def is_sign_def is_digit_def
      is_space_def strip_def ox_token_def split_unpack_def py_int_of_str_def digits_val_def
      digit_val_def dict_set_def with_states_def)

theorem parse_Fe2O3_states_witness:
  "get_composition_oxidation_state demo_lib ''Fe2+3O3-2'' =
     Inr (fe2o3, [(''Fe'', 3), (''O'', - 2)])"
  using parse_Fe2O3_states [of demo_lib fe2o3]
  by (simp add: demo_lib_sel demo_element_def demo_parse_def)

text \<open>
  C4: a formula with no \<^verbatim>\<open>+\<close> and no \<^verbatim>\<open>-\<close> is handed unchanged to the formula
  parser of the library, and the oxidation-state map is empty.
\<close>

theorem parse_without_states:
  assumes "CHR ''+'' \<notin> set formula" and "CHR ''-'' \<notin> set formula"
  shows "get_composition_oxidation_state L formula =
           (case parse_formula L formula of Inl e \<Rightarrow> Inl e | Inr c \<Rightarrow> Inr (c, []))"
  using assms by (rule state_unsigned)

theorem parse_without_states_witness:
  "get_composition_oxidation_state demo_lib ''NaCl'' = Inr (nacl, [])"
  using parse_without_states [of "''NaCl''" demo_lib]
  by (simp add: demo_lib_sel demo_parse_def)

section \<open>Facts about ordering and expansion\<close>

lemma nat_py_int: "nat (py_int a) = nat \<lfloor>a\<rfloor>"
proof (cases "0 \<le> a")
  case True
  then show ?thesis by (simp add: py_int_def)
next
  case False
  then have "\<lceil>a\<rceil> \<le> 0" "\<lfloor>a\<rfloor> \<le> 0" by simp_all
  with False show ?thesis by (simp add: py_int_def)
qed

lemma atoms_py_int: "nat (py_int (amount d el)) = atoms d el"
  by (simp add: atoms_def nat_py_int)

lemma symbols_sorted: "sorted (map (electroneg L) (symbols_of L d))"
  by (simp add: symbols_of_def)

lemma symbols_mset: "mset (symbols_of L d) = mset (map fst d)"
  by (simp add: symbols_of_def)

lemma expansion_Nil: "expansion [] cnt val = []"
  by (simp add: expansion_def)

lemma expansion_Cons:
  "expansion (el # ord) cnt val = replicate (cnt el) (val el) @ expansion ord cnt val"
  by (simp add: expansion_def)

lemma magpie_values_total:
  "\<forall>el\<in>set ord. 0 < atoms d el \<longrightarrow> row el \<noteq> None \<Longrightarrow>
   magpie_values row d ord = Inr (expansion ord (atoms d) (\<lambda>el. the (row el)))"
proof (induction ord)
  case Nil
  then show ?case by (simp add: expansion_Nil)
next
  case (Cons el ord)
  then have IH: "magpie_values row d ord = Inr (expansion ord (atoms d) (\<lambda>el. the (row el)))"
    by simp
  show ?case
  proof (cases "atoms d el = 0")
    case True
    then show ?thesis by (simp add: atoms_py_int IH expansion_Cons)
  next
    case False
    with Cons.prems obtain v where "row el = Some v" by auto
    with False show ?thesis by (simp add: atoms_py_int IH expansion_Cons)
  qed
qed

lemma magpie_values_error:
  "magpie_values row d ord = Inl e \<Longrightarrow>
   \<exists>el\<in>set ord. 0 < atoms d el \<and> row el = None \<and> e = KeyError (SKey el)"
proof (induction ord)
  case Nil
  then show ?case by simp
next
  case (Cons el ord)
  show ?case
  proof (cases "atoms d el = 0")
    case True
    with Cons.prems have "magpie_values row d ord = Inl e" by (simp add: atoms_py_int)
    with Cons.IH show ?thesis by auto
  next
    case False
    show ?thesis
    proof (cases "row el")
      case None
      with False Cons.prems show ?thesis by (simp add: atoms_py_int)
    next
      case (Some v)
      with False Cons.prems have "magpie_values row d ord = Inl e"
        by (simp add: atoms_py_int split: sum.splits)
      with Cons.IH show ?thesis by auto
    qed
  qed
qed

lemma magpie_values_result:
  assumes "magpie_values row d ord = Inr vals"
  shows "(\<forall>el\<in>set ord. 0 < atoms d el \<longrightarrow> row el \<noteq> None) \<and>
         vals = expansion ord (atoms d) (\<lambda>el. the (row el))"
proof -
  have ok: "\<forall>el\<in>set ord. 0 < atoms d el \<longrightarrow> row el \<noteq> None"
  proof (rule ccontr)
    assume "\<not> ?thesis"
    then obtain el where el: "el \<in> set ord" "0 < atoms d el" "row el = None" by auto
    from assms el show False
    proof (induction ord arbitrary: vals)
      case Nil
      then show ?case by simp
    next
      case (Cons x xs)
      show ?case
      proof (cases "atoms d x = 0")
        case True
        with Cons.prems have "magpie_values row d xs = Inr vals" "el \<in> set xs"
          by (auto simp: atoms_py_int)
        with Cons.IH Cons.prems show ?thesis by blast
      next
        case False
        show ?thesis
        proof (cases "x = el")
          case True
          with False Cons.prems show ?thesis by (simp add: atoms_py_int)
        next
          case ne: False
          from False Cons.prems(1) obtain vs where "magpie_values row d xs = Inr vs"
            by (auto simp: atoms_py_int split: option.splits sum.splits)
          moreover from ne Cons.prems have "el \<in> set xs" by simp
          ultimately show ?thesis using Cons.IH Cons.prems by blast
        qed
      qed
    qed
  qed
  with magpie_values_total [of ord d row] assms show ?thesis by simp
qed

section \<open>Facts about the loop of the live-attribute source\<close>

lemma resolve_out: "resolve L oxs p el = (out, Inr v) \<Longrightarrow> out = []"
  by (auto simp: resolve_def split: option.splits)

lemma pymatgen_loop_total:
  "\<forall>el\<in>set ord. snd (resolve L oxs p el) = Inr (val el) \<Longrightarrow>
   pymatgen_loop L oxs d p ord = ([], Inr (expansion ord (atoms d) val))"
proof (induction ord)
  case Nil
  then show ?case by (simp add: expansion_Nil)
next
  case (Cons el ord)
  then have IH: "pymatgen_loop L oxs d p ord = ([], Inr (expansion ord (atoms d) val))"
    by simp
  from Cons.prems have "snd (resolve L oxs p el) = Inr (val el)" by simp
  then obtain out where r: "resolve L oxs p el = (out, Inr (val el))"
    by (cases "resolve L oxs p el") simp
  then have "out = []" by (rule resolve_out)
  with r IH show ?case by (simp add: atoms_py_int expansion_Cons)
qed

lemma pymatgen_loop_ok:
  "pymatgen_loop L oxs d p ord = (out, Inr vals) \<Longrightarrow>
   \<forall>el\<in>set ord. \<exists>v. snd (resolve L oxs p el) = Inr v"
proof (induction ord arbitrary: out vals)
  case Nil
  then show ?case by simp
next
  case (Cons el ord)
  obtain o1 r1 where r: "resolve L oxs p el = (o1, r1)" by (cases "resolve L oxs p el")
  obtain o2 r2 where l: "pymatgen_loop L oxs d p ord = (o2, r2)"
    by (cases "pymatgen_loop L oxs d p ord")
  from Cons.prems r l obtain v vs where "r1 = Inr v" "r2 = Inr vs"
    by (cases r1; cases r2) simp_all
  with r l Cons.IH [of o2 vs] show ?case by simp
qed

lemma pymatgen_loop_result:
  assumes "pymatgen_loop L oxs d p ord = (out, Inr vals)"
  shows "out = [] \<and> vals = expansion ord (atoms d) (\<lambda>el. projr (snd (resolve L oxs p el)))"
proof -
  have "\<forall>el\<in>set ord. snd (resolve L oxs p el) = Inr (projr (snd (resolve L oxs p el)))"
    using pymatgen_loop_ok [OF assms] by auto
  from pymatgen_loop_total [OF this, of d] assms show ?thesis by simp
qed

lemma symbols_set: "set (symbols_of L d) = fst ` set d"
  by (simp add: symbols_of_def)

lemma symbols_Nil: "symbols_of L d = [] \<longleftrightarrow> d = []"
  using symbols_set [of L d] by (metis image_is_empty set_empty)

section \<open>Ordering and expansion of both sources\<close>

lemma fe2o3_symbols:
  assumes "fe2o3_amounts d" and "electroneg L ''Fe'' < electroneg L ''O''"
  shows "symbols_of L d = [''Fe'', ''O'']"
  using assms by (auto simp: fe2o3_amounts_def symbols_of_def)

lemma fe2o3_atoms:
  assumes "fe2o3_amounts d"
  shows "atoms d ''Fe'' = 2" and "atoms d ''O'' = 3"
  using assms by (auto simp: fe2o3_amounts_def atoms_def amount_def)

lemma magpie_expansion:
  assumes "Composition L cmp = Inr c" and "magpie_get_property L self cmp p = Inr vals"
  shows "let d = get_el_amt_dict c; ord = symbols_of L d; row = all_elemental_props self p in
           sorted (map (electroneg L) ord) \<and> mset ord = mset (map fst d) \<and>
           (\<forall>el\<in>set ord. 0 < atoms d el \<longrightarrow> row el \<noteq> None) \<and>
           vals = expansion ord (atoms d) (\<lambda>el. the (row el))"
proof -
  from assms have "magpie_values (all_elemental_props self p) (get_el_amt_dict c)
      (symbols_of L (get_el_amt_dict c)) = Inr vals"
    by (simp add: magpie_get_property_def Let_def split: if_splits)
  from magpie_values_result [OF this] show ?thesis
    by (simp add: Let_def symbols_sorted symbols_mset)
qed

lemma pymatgen_expansion:
  assumes "oxidation_context L cmp = Inr (oxs, d)"
    and "pymatgen_get_property L cmp p = (out, Inr vals)"
  shows "let ord = symbols_of L d in
           sorted (map (electroneg L) ord) \<and> mset ord = mset (map fst d) \<and>
           (\<forall>el\<in>set ord. \<exists>v. snd (resolve L oxs p el) = Inr v) \<and>
           vals = expansion ord (atoms d) (\<lambda>el. projr (snd (resolve L oxs p el)))"
proof -
  from assms have loop: "pymatgen_loop L oxs d p (symbols_of L d) = (out, Inr vals)"
    by (simp add: pymatgen_get_property_def)
  from pymatgen_loop_ok [OF loop] pymatgen_loop_result [OF loop] show ?thesis
    by (simp add: Let_def symbols_sorted symbols_mset)
qed

lemma magpie_fe2o3:
  assumes "Composition L cmp = Inr c" and "fe2o3_amounts (get_el_amt_dict c)"
    and "electroneg L ''Fe'' < electroneg L ''O''"
    and "p \<in> set (available_props self)"
    and "all_elemental_props self p ''Fe'' = Some vFe"
    and "all_elemental_props self p ''O'' = Some vO"
  shows "magpie_get_property L self cmp p = Inr [vFe, vFe, vO, vO, vO]"
proof -
  have "magpie_values (all_elemental_props self p) (get_el_amt_dict c) [''Fe'', ''O''] =
          Inr (expansion [''Fe'', ''O''] (atoms (get_el_amt_dict c))
                 (\<lambda>el. the (all_elemental_props self p el)))"
    by (rule magpie_values_total) (simp add: assms)
  then show ?thesis
    using assms(1,4) fe2o3_symbols [OF assms(2,3)] fe2o3_atoms [OF assms(2)] assms(5,6)
    by (simp add: magpie_get_property_def expansion_def numeral_eq_Suc)
qed

lemma pymatgen_fe2o3:
  assumes "oxidation_context L cmp = Inr (oxs, d)" and "fe2o3_amounts d"
    and "electroneg L ''Fe'' < electroneg L ''O''"
    and "snd (resolve L oxs p ''Fe'') = Inr wFe"
    and "snd (resolve L oxs p ''O'') = Inr wO"
  shows "pymatgen_get_property L cmp p = ([], Inr [wFe, wFe, wO, wO, wO])"
proof -
  have "pymatgen_loop L oxs d p [''Fe'', ''O''] =
          ([], Inr (expansion [''Fe'', ''O''] (atoms d)
                      (\<lambda>el. projr (snd (resolve L oxs p el)))))"
    by (rule pymatgen_loop_total) (simp add: assms)
  then show ?thesis
    using assms(1,4,5) fe2o3_symbols [OF assms(2,3)] fe2o3_atoms [OF assms(2)]
    by (simp add: pymatgen_get_property_def expansion_def numeral_eq_Suc)
qed

lemma demo_context_fe2o3:
  "oxidation_context demo_lib (Formula ''Fe2O3'') = Inr ([], [(''Fe'', 2), (''O'', 3)])"
  by (simp add: oxidation_context_def state_unsigned demo_lib_sel demo_parse_def fe2o3_def)

lemma demo_X_order: "electroneg demo_lib ''Fe'' < electroneg demo_lib ''O''"
  by (simp add: demo_lib_sel demo_X_def)

text \<open>
  C1: on either source, a returned sequence lists the elements of the composition in
  ascending order of electronegativity, each element contributing as many consecutive
  copies of its resolved value as the floor of its amount; for the amounts of
  \<^verbatim>\<open>Fe2O3\<close> the result is the value of Fe twice, then the value of O three times.
\<close>

theorem get_property_expansion:
  "(Composition L cmp = Inr c \<and> magpie_get_property L self cmp p = Inr vals \<longrightarrow>
      (let d = get_el_amt_dict c; ord = symbols_of L d; row = all_elemental_props self p in
         sorted (map (electroneg L) ord) \<and> mset ord = mset (map fst d) \<and>
         (\<forall>el\<in>set ord. 0 < atoms d el \<longrightarrow> row el \<noteq> None) \<and>
         vals = expansion ord (atoms d) (\<lambda>el. the (row el))))
   \<and> (oxidation_context L cmp = Inr (oxs, d') \<and>
        pymatgen_get_property L cmp p = (out, Inr vals') \<longrightarrow>
      (let ord = symbols_of L d' in
         sorted (map (electroneg L) ord) \<and> mset ord = mset (map fst d') \<and>
         (\<forall>el\<in>set ord. \<exists>v. snd (resolve L oxs p el) = Inr v) \<and>
         vals' = expansion ord (atoms d') (\<lambda>el. projr (snd (resolve L oxs p el)))))
   \<and> (Composition L cmp = Inr c \<and> fe2o3_amounts (get_el_amt_dict c) \<and>
        electroneg L ''Fe'' < electroneg L ''O'' \<and> p \<in> set (available_props self) \<and>
        all_elemental_props self p ''Fe'' = Some vFe \<and>
        all_elemental_props self p ''O'' = Some vO \<longrightarrow>
      magpie_get_property L self cmp p = Inr [vFe, vFe, vO, vO, vO])
   \<and> (oxidation_context L cmp = Inr (oxs, d') \<and> fe2o3_amounts d' \<and>
        electroneg L ''Fe'' < electroneg L ''O'' \<and>
        snd (resolve L oxs p ''Fe'') = Inr wFe \<and> snd (resolve L oxs p ''O'') = Inr wO \<longrightarrow>
      pymatgen_get_property L cmp p = ([], Inr [wFe, wFe, wO, wO, wO]))"
  using magpie_expansion [of L cmp c self p vals] pymatgen_expansion [of L cmp oxs d' p out vals']
    magpie_fe2o3 [of L cmp c p self vFe vO] pymatgen_fe2o3 [of L cmp oxs d' p wFe wO]
  by blast

theorem get_property_expansion_witness:
  "magpie_get_property demo_lib demo_magpie (CompObj o3fe2) ''Number'' =
     Inr [Scalar (Finite 26), Scalar (Finite 26),
          Scalar (Finite 8), Scalar (Finite 8), Scalar (Finite 8)]
   \<and> pymatgen_get_property demo_lib (Formula ''Fe2O3'') ''X'' =
     ([], Inr [Some (Finite (183 / 100)), Some (Finite (183 / 100)),
               Some (Finite (344 / 100)), Some (Finite (344 / 100)), Some (Finite (344 / 100))])"
proof -
  have m: "Composition demo_lib (CompObj o3fe2) = Inr o3fe2"
    "fe2o3_amounts (get_el_amt_dict o3fe2)"
    "''Number'' \<in> set (available_props demo_magpie)"
    "all_elemental_props demo_magpie ''Number'' ''Fe'' = Some (Scalar (Finite 26))"
    "all_elemental_props demo_magpie ''Number'' ''O'' = Some (Scalar (Finite 8))"
    by (simp_all add: Composition_def o3fe2_def fe2o3_amounts_def demo_magpie_def)
  have r: "snd (resolve demo_lib [] ''X'' ''Fe'') = Inr (Some (Finite (183 / 100)))"
    "snd (resolve demo_lib [] ''X'' ''O'') = Inr (Some (Finite (344 / 100)))"
    by (simp_all add: resolve_def demo_lib_sel demo_getattr_def demo_X_def py_float_def
        unitless_def)
  have f: "fe2o3_amounts [(''Fe'', 2), (''O'', 3)]" by (simp add: fe2o3_amounts_def)
  from get_property_expansion [of demo_lib "CompObj o3fe2" o3fe2 demo_magpie "''Number''"]
    m demo_X_order
  have "magpie_get_property demo_lib demo_magpie (CompObj o3fe2) ''Number'' =
     Inr [Scalar (Finite 26), Scalar (Finite 26),
          Scalar (Finite 8), Scalar (Finite 8), Scalar (Finite 8)]"
    by blast
  moreover
  from get_property_expansion [of demo_lib "Formula ''Fe2O3''" _ _ "''X''" _ "[]"
      "[(''Fe'', 2), (''O'', 3)]"]
    demo_context_fe2o3 f demo_X_order r
  have "pymatgen_get_property demo_lib (Formula ''Fe2O3'') ''X'' =
     ([], Inr [Some (Finite (183 / 100)), Some (Finite (183 / 100)),
               Some (Finite (344 / 100)), Some (Finite (344 / 100)), Some (Finite (344 / 100))])"
    by blast
  ultimately show ?thesis by simp
qed

section \<open>Errors and missing values of the two sources\<close>

lemma magpie_values_no_value_error: "magpie_values row d ord \<noteq> Inl (ValueError m a)"
  using magpie_values_error [of row d ord "ValueError m a"] by auto

text \<open>
  C6: for a valid composition, a property name outside the available set makes the
  table-backed source raise the \<^verbatim>\<open>ValueError\<close> whose message is formatted with the
  whole list of available names; a name in the set never raises it.
\<close>

theorem unknown_property_error:
  assumes "Composition L cmp = Inr c"
  shows "(p \<notin> set (available_props self) \<longrightarrow>
            magpie_get_property L self cmp p =
              Inl (ValueError unavailable (available_props self)))
       \<and> (p \<in> set (available_props self) \<longrightarrow>
            (\<forall>m a. magpie_get_property L self cmp p \<noteq> Inl (ValueError m a)))"
  using assms by (simp add: magpie_get_property_def Let_def magpie_values_no_value_error)

theorem unknown_property_error_witness:
  "magpie_get_property demo_lib demo_magpie (Formula ''Fe2O3'') ''Density'' =
     Inl (ValueError unavailable [''Number'', ''OxidationStates''])
   \<and> (\<forall>m a. magpie_get_property demo_lib demo_magpie (Formula ''Fe2O3'') ''Number'' \<noteq>
         Inl (ValueError m a))"
proof -
  have c: "Composition demo_lib (Formula ''Fe2O3'') = Inr fe2o3"
    by (simp add: Composition_def demo_lib_sel demo_parse_def)
  have a: "available_props demo_magpie = [''Number'', ''OxidationStates'']"
    by (simp add: demo_magpie_def)
  from unknown_property_error [OF c, of "''Density''" demo_magpie]
    unknown_property_error [OF c, of "''Number''" demo_magpie]
  show ?thesis by (simp add: a)
qed

lemma pymatgen_loop_first_error:
  assumes "ord \<noteq> []" and "resolve L oxs p (hd ord) = (out, Inl e)"
  shows "pymatgen_loop L oxs d p ord = (out, Inl e)"
  using assms by (cases ord) simp_all

lemma hd_symbols:
  assumes "d \<noteq> []"
  shows "hd (symbols_of L d) \<in> fst ` set d"
proof -
  from assms have "symbols_of L d \<noteq> []" by (simp add: symbols_Nil)
  then have "hd (symbols_of L d) \<in> set (symbols_of L d)" by simp
  then show ?thesis by (simp add: symbols_set)
qed

text \<open>
  C8: for a composition with at least one element, when no element exposes the
  requested attribute the live-attribute source prints the line naming the attribute
  and then fails with \<^verbatim>\<open>AttributeError\<close>.
\<close>

theorem missing_attribute_error:
  assumes "oxidation_context L cmp = Inr (oxs, d)" and "d \<noteq> []"
    and "\<forall>el\<in>fst ` set d. getattr_element L el p = None"
  shows "pymatgen_get_property L cmp p =
           ([p @ '' attribute missing''], Inl (AttributeError p))"
proof -
  from assms(2,3) have "getattr_element L (hd (symbols_of L d)) p = None"
    using hd_symbols by blast
  then have "resolve L oxs p (hd (symbols_of L d)) =
      ([p @ '' attribute missing''], Inl (AttributeError p))"
    by (simp add: resolve_def)
  moreover from assms(2) have "symbols_of L d \<noteq> []" by (simp add: symbols_Nil)
  ultimately have "pymatgen_loop L oxs d p (symbols_of L d) =
      ([p @ '' attribute missing''], Inl (AttributeError p))"
    by (simp add: pymatgen_loop_first_error)
  with assms(1) show ?thesis by (simp add: pymatgen_get_property_def)
qed

theorem missing_attribute_error_witness:
  "pymatgen_get_property demo_lib (Formula ''Fe2O3'') ''colour'' =
     ([''colour attribute missing''], Inl (AttributeError ''colour''))"
  using missing_attribute_error [OF demo_context_fe2o3, of "''colour''"]
  by (simp add: demo_lib_sel demo_getattr_def)

lemma resolve_None:
  "getattr_element L el p = Some PyNone \<Longrightarrow> resolve L oxs p el = ([], Inr None)"
  by (simp add: resolve_def)

lemma demo_context_nacl:
  "oxidation_context demo_lib (Formula ''NaCl'') = Inr ([], [(''Na'', 1), (''Cl'', 1)])"
  by (simp add: oxidation_context_def state_unsigned demo_lib_sel demo_parse_def nacl_def)

text \<open>
  C9: an attribute that is exposed with the value \<^verbatim>\<open>None\<close> raises nothing: the
  value resolved for the element is \<^verbatim>\<open>None\<close>, every atom of that element contributes
  \<^verbatim>\<open>None\<close> to a returned sequence, and a composition of such elements returns a
  sequence of \<^verbatim>\<open>None\<close> only.
\<close>

theorem none_attribute_value:
  assumes "oxidation_context L cmp = Inr (oxs, d)"
  shows "(\<forall>el. getattr_element L el p = Some PyNone \<longrightarrow> resolve L oxs p el = ([], Inr None))
       \<and> (pymatgen_get_property L cmp p = (out, Inr vals) \<longrightarrow>
            (\<exists>val. vals = expansion (symbols_of L d) (atoms d) val \<and>
               (\<forall>el. getattr_element L el p = Some PyNone \<longrightarrow> val el = None)))
       \<and> ((\<forall>el\<in>fst ` set d. getattr_element L el p = Some PyNone) \<longrightarrow>
            pymatgen_get_property L cmp p =
              ([], Inr (expansion (symbols_of L d) (atoms d) (\<lambda>el. None))))"
proof (intro conjI allI impI)
  fix el assume "getattr_element L el p = Some PyNone"
  then show "resolve L oxs p el = ([], Inr None)" by (rule resolve_None)
next
  assume r: "pymatgen_get_property L cmp p = (out, Inr vals)"
  with assms have "pymatgen_loop L oxs d p (symbols_of L d) = (out, Inr vals)"
    by (simp add: pymatgen_get_property_def)
  then have "vals = expansion (symbols_of L d) (atoms d)
      (\<lambda>el. projr (snd (resolve L oxs p el)))"
    by (simp add: pymatgen_loop_result)
  moreover have "\<forall>el. getattr_element L el p = Some PyNone \<longrightarrow>
      projr (snd (resolve L oxs p el)) = None"
    by (simp add: resolve_None)
  ultimately show "\<exists>val. vals = expansion (symbols_of L d) (atoms d) val \<and>
      (\<forall>el. getattr_element L el p = Some PyNone \<longrightarrow> val el = None)"
    by blast
next
  assume "\<forall>el\<in>fst ` set d. getattr_element L el p = Some PyNone"
  then have "\<forall>el\<in>set (symbols_of L d). snd (resolve L oxs p el) = Inr None"
    by (simp add: symbols_set resolve_None)
  then have "pymatgen_loop L oxs d p (symbols_of L d) =
      ([], Inr (expansion (symbols_of L d) (atoms d) (\<lambda>el. None)))"
    by (rule pymatgen_loop_total)
  with assms show "pymatgen_get_property L cmp p =
      ([], Inr (expansion (symbols_of L d) (atoms d) (\<lambda>el. None)))"
    by (simp add: pymatgen_get_property_def)
qed

theorem none_attribute_value_witness:
  "resolve demo_lib [] ''bulk_modulus'' ''O'' = ([], Inr None)
   \<and> pymatgen_get_property demo_lib (Formula ''NaCl'') ''bulk_modulus'' = ([], Inr [None, None])
   \<and> pymatgen_get_property demo_lib (Formula ''Fe2O3'') ''bulk_modulus'' =
       ([], Inr [Some (Finite 170), Some (Finite 170), None, None, None])"
proof -
  have r: "snd (resolve demo_lib [] ''bulk_modulus'' ''Fe'') = Inr (Some (Finite 170))"
    "snd (resolve demo_lib [] ''bulk_modulus'' ''O'') = Inr None"
    by (simp_all add: resolve_def demo_lib_sel demo_getattr_def py_float_def unit_of_def
        unitless_def)
  have f: "fe2o3_amounts [(''Fe'', 2), (''O'', 3)]" by (simp add: fe2o3_amounts_def)
  note mixed = pymatgen_fe2o3 [OF demo_context_fe2o3 f demo_X_order r]
  have g: "getattr_element demo_lib ''O'' ''bulk_modulus'' = Some PyNone"
    "\<forall>el\<in>fst ` set [(''Na'', 1::rat), (''Cl'', 1)].
       getattr_element demo_lib el ''bulk_modulus'' = Some PyNone"
    by (simp_all add: demo_lib_sel demo_getattr_def)
  have s: "symbols_of demo_lib [(''Na'', 1), (''Cl'', 1)] = [''Na'', ''Cl'']"
    by (simp add: symbols_of_def demo_lib_sel demo_X_def)
  have e: "expansion [''Na'', ''Cl''] (atoms [(''Na'', 1), (''Cl'', 1)]) (\<lambda>el. None :: pyfloat option)
       = [None, None]"
    by (simp add: expansion_def atoms_def amount_def)
  from none_attribute_value [OF demo_context_nacl, of "''bulk_modulus''"] g
  show ?thesis by (simp add: s e mixed)
qed

section \<open>Ionic radii and oxidation states\<close>

lemma resolve_radius_missing_states:
  assumes "getattr_element L el ''ionic_radii'' = Some (Radii r)"
  shows "resolve L [] ''ionic_radii'' el =
           ([], Inl (ValueError no_oxidation_state [''ionic_radii'']))"
  using assms by (simp add: resolve_def)

lemma resolve_radius:
  assumes g: "getattr_element L el ''ionic_radii'' = Some (Radii r)" and "oxs \<noteq> []"
    and "radius_by_state L oxs el \<noteq> None"
  shows "resolve L oxs ''ionic_radii'' el = ([], Inr (radius_by_state L oxs el))"
proof -
  from assms(3) g obtain q where q: "map_of oxs el = Some q"
    by (cases "map_of oxs el") (simp_all add: radius_by_state_def)
  with assms(3) g obtain x where x: "map_of r q = Some x"
    by (cases "map_of r q") (simp_all add: radius_by_state_def)
  from g q x have rb: "radius_by_state L oxs el = Some x"
    by (simp add: radius_by_state_def)
  from q x have "ionic_radius (Radii r) oxs el = Inr x"
    by (simp add: ionic_radius_def)
  with g assms(2) show ?thesis
    by (simp add: resolve_def rb unitless_def)
qed

lemma demo_state_Fe2O3:
  "get_composition_oxidation_state demo_lib ''Fe2+3O3-2'' =
     Inr (fe2o3, [(''Fe'', 3), (''O'', - 2)])"
  by (simp add: get_composition_oxidation_state_def is_letter_def is_sign_def is_digit_def
      is_space_def strip_def ox_token_def split_unpack_def py_int_of_str_def digits_val_def
      digit_val_def dict_set_def with_states_def demo_lib_sel demo_element_def demo_parse_def)

lemma demo_context_states:
  "oxidation_context demo_lib (Formula ''Fe2+3O3-2'') =
     Inr ([(''Fe'', 3), (''O'', - 2)], [(''Fe'', 2), (''O'', 3)])"
  by (simp add: oxidation_context_def demo_state_Fe2O3 fe2o3_def)

lemma demo_state_O3Fe2:
  "get_composition_oxidation_state demo_lib ''O3Fe2+3'' = Inr (o3fe2, [(''O'', 3)])"
  by (simp add: get_composition_oxidation_state_def is_letter_def is_sign_def is_digit_def
      is_space_def strip_def ox_token_def split_unpack_def py_int_of_str_def digits_val_def
      digit_val_def dict_set_def with_states_def demo_lib_sel demo_element_def demo_parse_def)

lemma demo_context_partial:
  "oxidation_context demo_lib (Formula ''O3Fe2+3'') =
     Inr ([(''O'', 3)], [(''O'', 3), (''Fe'', 2)])"
  by (simp add: oxidation_context_def demo_state_O3Fe2 o3fe2_def)

text \<open>
  C5, as the code has it: for a composition with at least one element whose elements
  all expose a table of ionic radii, the call fails with the \<^verbatim>\<open>ValueError\<close> on missing
  oxidation states exactly when no oxidation state is known at all (the map is empty);
  when every element has an oxidation state and a radius for it, each atom contributes
  the ionic radius keyed by the oxidation state of its element.
\<close>

theorem ionic_radii_oxidation_state:
  assumes "oxidation_context L cmp = Inr (oxs, d)" and "d \<noteq> []"
    and "\<forall>el\<in>fst ` set d. \<exists>r. getattr_element L el ''ionic_radii'' = Some (Radii r)"
  shows "(oxs = [] \<longrightarrow>
            pymatgen_get_property L cmp ''ionic_radii'' =
              ([], Inl (ValueError no_oxidation_state [''ionic_radii''])))
       \<and> (oxs \<noteq> [] \<and> (\<forall>el\<in>fst ` set d. radius_by_state L oxs el \<noteq> None) \<longrightarrow>
            pymatgen_get_property L cmp ''ionic_radii'' =
              ([], Inr (expansion (symbols_of L d) (atoms d) (radius_by_state L oxs))))"
proof (intro conjI impI)
  assume e: "oxs = []"
  have "hd (symbols_of L d) \<in> fst ` set d" using assms(2) by (rule hd_symbols)
  with assms(3) have
    "\<exists>r. getattr_element L (hd (symbols_of L d)) ''ionic_radii'' = Some (Radii r)"
    by (rule bspec)
  then obtain r where
    "getattr_element L (hd (symbols_of L d)) ''ionic_radii'' = Some (Radii r)" ..
  then have "resolve L [] ''ionic_radii'' (hd (symbols_of L d)) =
      ([], Inl (ValueError no_oxidation_state [''ionic_radii'']))"
    by (rule resolve_radius_missing_states)
  moreover from assms(2) have "symbols_of L d \<noteq> []" by (simp add: symbols_Nil)
  ultimately have "pymatgen_loop L [] d ''ionic_radii'' (symbols_of L d) =
      ([], Inl (ValueError no_oxidation_state [''ionic_radii'']))"
    by (simp add: pymatgen_loop_first_error)
  with assms(1) e show "pymatgen_get_property L cmp ''ionic_radii'' =
      ([], Inl (ValueError no_oxidation_state [''ionic_radii'']))"
    by (simp add: pymatgen_get_property_def)
next
  assume a: "oxs \<noteq> [] \<and> (\<forall>el\<in>fst ` set d. radius_by_state L oxs el \<noteq> None)"
  have "\<forall>el\<in>set (symbols_of L d).
      snd (resolve L oxs ''ionic_radii'' el) = Inr (radius_by_state L oxs el)"
  proof
    fix el assume "el \<in> set (symbols_of L d)"
    then have el: "el \<in> fst ` set d" by (simp add: symbols_set)
    with assms(3) have "\<exists>r. getattr_element L el ''ionic_radii'' = Some (Radii r)"
      by (rule bspec)
    then obtain r where "getattr_element L el ''ionic_radii'' = Some (Radii r)" ..
    moreover from a have "oxs \<noteq> []" ..
    moreover from a have "\<forall>el\<in>fst ` set d. radius_by_state L oxs el \<noteq> None" ..
    then have "radius_by_state L oxs el \<noteq> None" using el by (rule bspec)
    ultimately have "resolve L oxs ''ionic_radii'' el = ([], Inr (radius_by_state L oxs el))"
      by (rule resolve_radius)
    then show "snd (resolve L oxs ''ionic_radii'' el) = Inr (radius_by_state L oxs el)"
      by simp
  qed
  then have "pymatgen_loop L oxs d ''ionic_radii'' (symbols_of L d) =
      ([], Inr (expansion (symbols_of L d) (atoms d) (radius_by_state L oxs)))"
    by (rule pymatgen_loop_total)
  with assms(1) show "pymatgen_get_property L cmp ''ionic_radii'' =
      ([], Inr (expansion (symbols_of L d) (atoms d) (radius_by_state L oxs)))"
    by (simp add: pymatgen_get_property_def)
qed

theorem ionic_radii_oxidation_state_witness:
  "pymatgen_get_property demo_lib (Formula ''Fe2O3'') ''ionic_radii'' =
     ([], Inl (ValueError no_oxidation_state [''ionic_radii'']))
   \<and> pymatgen_get_property demo_lib (Formula ''Fe2+3O3-2'') ''ionic_radii'' =
     ([], Inr [Some (Finite (785 / 1000)), Some (Finite (785 / 1000)),
               Some (Finite (126 / 100)), Some (Finite (126 / 100)), Some (Finite (126 / 100))])"
proof -
  have g: "\<forall>el\<in>fst ` set [(''Fe'', 2::rat), (''O'', 3)].
      \<exists>r. getattr_element demo_lib el ''ionic_radii'' = Some (Radii r)"
    by (simp add: demo_lib_sel demo_getattr_def)
  have rs: "radius_by_state demo_lib [(''Fe'', 3), (''O'', - 2)] ''Fe'' = Some (Finite (785 / 1000))"
    "radius_by_state demo_lib [(''Fe'', 3), (''O'', - 2)] ''O'' = Some (Finite (126 / 100))"
    by (simp_all add: radius_by_state_def demo_lib_sel demo_getattr_def)
  have s: "symbols_of demo_lib [(''Fe'', 2), (''O'', 3)] = [''Fe'', ''O'']"
    by (simp add: symbols_of_def demo_lib_sel demo_X_def)
  have e: "expansion [''Fe'', ''O''] (atoms [(''Fe'', 2), (''O'', 3)])
             (radius_by_state demo_lib [(''Fe'', 3), (''O'', - 2)]) =
           [Some (Finite (785 / 1000)), Some (Finite (785 / 1000)),
            Some (Finite (126 / 100)), Some (Finite (126 / 100)), Some (Finite (126 / 100))]"
    by (simp add: expansion_def atoms_def amount_def rs numeral_eq_Suc)
  from ionic_radii_oxidation_state [OF demo_context_fe2o3 _ g]
    ionic_radii_oxidation_state [OF demo_context_states _ g]
  show ?thesis by (simp add: rs s e)
qed

text \<open>
  The claim as the specification words it fails: in \<^verbatim>\<open>"O3Fe2+3"\<close> only O gets an
  oxidation state, the map is not empty, and the missing state of Fe surfaces as the
  \<^verbatim>\<open>KeyError\<close> of the dictionary lookup.
\<close>

theorem ionic_radii_partial_states_counterexample:
  "oxidation_context demo_lib (Formula ''O3Fe2+3'') =
     Inr ([(''O'', 3)], [(''O'', 3), (''Fe'', 2)])
   \<and> map_of [(''O'', 3 :: int)] ''Fe'' = None
   \<and> pymatgen_get_property demo_lib (Formula ''O3Fe2+3'') ''ionic_radii'' =
       ([], Inl (KeyError (SKey ''Fe'')))
   \<and> pymatgen_get_property demo_lib (Formula ''O3Fe2+3'') ''ionic_radii'' \<noteq>
       ([], Inl (ValueError no_oxidation_state [''ionic_radii'']))"
proof -
  have s: "symbols_of demo_lib [(''O'', 3), (''Fe'', 2)] = [''Fe'', ''O'']"
    by (simp add: symbols_of_def demo_lib_sel demo_X_def)
  have "resolve demo_lib [(''O'', 3)] ''ionic_radii'' ''Fe'' = ([], Inl (KeyError (SKey ''Fe'')))"
    by (simp add: resolve_def demo_lib_sel demo_getattr_def ionic_radius_def)
  then have "pymatgen_get_property demo_lib (Formula ''O3Fe2+3'') ''ionic_radii'' =
       ([], Inl (KeyError (SKey ''Fe'')))"
    by (simp add: pymatgen_get_property_def demo_context_partial s)
  then show ?thesis by (simp add: demo_context_partial)
qed

section \<open>Facts about table construction\<close>

lemma floats_None: "floats L ws = None \<longleftrightarrow> (\<exists>w\<in>set ws. to_float L w = None)"
  by (induction ws) (auto split: option.splits)

lemma floats_Some:
  "\<forall>w\<in>set ws. to_float L w \<noteq> None \<Longrightarrow> floats L ws = Some (map (\<lambda>w. the (to_float L w)) ws)"
  by (induction ws) (auto split: option.splits)

lemma parse_line_cases:
  "parse_line L d line = (if parse_fails L d line then Scalar NaN else parsed_value L d line)"
proof (cases "d = ''OxidationStates''")
  case True
  show ?thesis
  proof (cases "\<exists>w\<in>set (split_ws line). to_float L w = None")
    case t: True
    then have "floats L (split_ws line) = None" by (simp add: floats_None)
    with True t show ?thesis by (simp add: parse_line_def parse_fails_def)
  next
    case False
    then have "floats L (split_ws line) = Some (map (\<lambda>w. the (to_float L w)) (split_ws line))"
      by (intro floats_Some) simp
    with True False show ?thesis by (simp add: parse_line_def parse_fails_def parsed_value_def)
  qed
next
  case False
  then show ?thesis
    by (cases "to_float L line") (simp_all add: parse_line_def parse_fails_def parsed_value_def)
qed

lemma fill_row_Nil: "fill_row L sy d lines [] t = t"
  by (simp add: fill_row_def)

lemma fill_row_Cons:
  "fill_row L sy d lines (z # zs) t =
     fill_row L sy d lines zs (store t d (sy z) (parse_line L d (lines ! (z - 1))))"
  by (simp add: fill_row_def)

lemma parse_atoms_ok:
  "\<forall>z\<in>set zs. z - 1 < length lines \<and> from_Z L z = Inr (sy z) \<Longrightarrow>
   parse_atoms L d lines zs t = Inr (fill_row L sy d lines zs t)"
  by (induction zs arbitrary: t) (simp_all add: fill_row_Nil fill_row_Cons)

lemma parse_atoms_short:
  "\<exists>z\<in>set zs. \<not> z - 1 < length lines \<Longrightarrow> \<forall>z\<in>set zs. from_Z L z = Inr (sy z) \<Longrightarrow>
   parse_atoms L d lines zs t = Inl IndexError"
proof (induction zs arbitrary: t)
  case Nil
  then show ?case by simp
next
  case (Cons z zs)
  show ?case
  proof (cases "z - 1 < length lines")
    case True
    with Cons.prems have "\<exists>z\<in>set zs. \<not> z - 1 < length lines" "\<forall>z\<in>set zs. from_Z L z = Inr (sy z)"
      by auto
    then have "\<And>t. parse_atoms L d lines zs t = Inl IndexError" by (rule Cons.IH)
    with True Cons.prems(2) show ?thesis by simp
  next
    case False
    then show ?thesis by simp
  qed
qed

lemma fill_row_other: "d' \<noteq> d \<Longrightarrow> fill_row L sy d lines zs t d' = t d'"
  by (induction zs arbitrary: t) (simp_all add: fill_row_Nil fill_row_Cons store_def)

lemma fill_row_miss: "e \<notin> sy ` set zs \<Longrightarrow> fill_row L sy d lines zs t d e = t d e"
  by (induction zs arbitrary: t) (simp_all add: fill_row_Nil fill_row_Cons store_def)

lemma fill_row_hit:
  "z \<in> set zs \<Longrightarrow> inj_on sy (set zs) \<Longrightarrow>
   fill_row L sy d lines zs t d (sy z) = Some (parse_line L d (lines ! (z - 1)))"
proof (induction zs arbitrary: t)
  case Nil
  then show ?case by simp
next
  case (Cons x xs)
  from Cons.prems(2) have inj: "inj_on sy (set xs)" by (simp add: inj_on_def)
  show ?case
  proof (cases "z \<in> set xs")
    case True
    from Cons.IH [OF True inj] show ?thesis by (simp add: fill_row_Cons)
  next
    case False
    with Cons.prems(1) have zx: "z = x" by simp
    have "sy x \<notin> sy ` set xs"
    proof
      assume "sy x \<in> sy ` set xs"
      then obtain y where y: "y \<in> set xs" "sy x = sy y" by auto
      with Cons.prems(2) have "x = y" by (simp add: inj_on_def)
      with y False zx show False by simp
    qed
    then show ?thesis by (simp add: fill_row_Cons fill_row_miss zx store_def)
  qed
qed

lemma numbers_set: "set [1 ..< n + 1] = {1..n}"
  by auto

lemma long_enough: "n \<le> length lines \<Longrightarrow> z \<in> {1..n} \<Longrightarrow> z - 1 < length lines"
  by auto

lemma too_short: "length lines < n \<Longrightarrow> \<exists>z\<in>{1..n}. \<not> z - 1 < length lines"
  by (rule bexI [of _ n]) auto

lemma fill_table_Nil: "fill_table L sy rd [] t = t"
  by (simp add: fill_table_def)

lemma fill_table_Cons:
  "fill_table L sy rd (d # ds) t =
     fill_table L sy rd ds (fill_row L sy d (rd d) [1 ..< pt_size L + 1] t)"
  by (simp add: fill_table_def)

lemma parse_props_ok:
  assumes "\<forall>z\<in>{1..pt_size L}. from_Z L z = Inr (sy z)"
  shows "\<forall>d\<in>set ds. read_table L d = Inr (rd d) \<and> pt_size L \<le> length (rd d) \<Longrightarrow>
         parse_props L ds t = Inr (fill_table L sy rd ds t)"
proof (induction ds arbitrary: t)
  case Nil
  then show ?case by (simp add: fill_table_Nil)
next
  case (Cons d ds)
  from Cons.prems have rd: "read_table L d = Inr (rd d)" and len: "pt_size L \<le> length (rd d)"
    by simp_all
  have "\<forall>z\<in>set [1 ..< pt_size L + 1]. z - 1 < length (rd d) \<and> from_Z L z = Inr (sy z)"
    using assms long_enough [OF len] unfolding numbers_set by blast
  then have "parse_atoms L d (rd d) [1 ..< pt_size L + 1] t =
      Inr (fill_row L sy d (rd d) [1 ..< pt_size L + 1] t)"
    by (rule parse_atoms_ok)
  moreover from Cons.prems
  have "parse_props L ds (fill_row L sy d (rd d) [1 ..< pt_size L + 1] t) =
      Inr (fill_table L sy rd ds (fill_row L sy d (rd d) [1 ..< pt_size L + 1] t))"
    by (intro Cons.IH) simp
  ultimately show ?case using rd by (simp add: fill_table_Cons)
qed

lemma parse_props_short:
  assumes "\<forall>z\<in>{1..pt_size L}. from_Z L z = Inr (sy z)"
  shows "\<forall>d\<in>set ds. read_table L d = Inr (rd d) \<Longrightarrow>
         \<exists>d\<in>set ds. length (rd d) < pt_size L \<Longrightarrow>
         parse_props L ds t = Inl IndexError"
proof (induction ds arbitrary: t)
  case Nil
  then show ?case by simp
next
  case (Cons d ds)
  from Cons.prems(1) have rd: "read_table L d = Inr (rd d)" by simp
  have fz: "\<forall>z\<in>set [1 ..< pt_size L + 1]. from_Z L z = Inr (sy z)"
    using assms unfolding numbers_set .
  show ?case
  proof (cases "length (rd d) < pt_size L")
    case True
    then have "\<exists>z\<in>set [1 ..< pt_size L + 1]. \<not> z - 1 < length (rd d)"
      unfolding numbers_set by (rule too_short)
    then have "parse_atoms L d (rd d) [1 ..< pt_size L + 1] t = Inl IndexError"
      using fz by (rule parse_atoms_short)
    with rd show ?thesis by simp
  next
    case False
    then have len: "pt_size L \<le> length (rd d)" by simp
    have "\<forall>z\<in>set [1 ..< pt_size L + 1]. z - 1 < length (rd d) \<and> from_Z L z = Inr (sy z)"
      using assms long_enough [OF len] unfolding numbers_set by blast
    then have a: "parse_atoms L d (rd d) [1 ..< pt_size L + 1] t =
        Inr (fill_row L sy d (rd d) [1 ..< pt_size L + 1] t)"
      by (rule parse_atoms_ok)
    from False Cons.prems have "\<forall>d\<in>set ds. read_table L d = Inr (rd d)"
      "\<exists>d\<in>set ds. length (rd d) < pt_size L" by auto
    then have "parse_props L ds (fill_row L sy d (rd d) [1 ..< pt_size L + 1] t) = Inl IndexError"
      by (rule Cons.IH)
    with rd a show ?thesis by simp
  qed
qed

lemma fill_table_other: "d \<notin> set ds \<Longrightarrow> fill_table L sy rd ds t d = t d"
  by (induction ds arbitrary: t) (simp_all add: fill_table_Nil fill_table_Cons fill_row_other)

lemma fill_table_hit:
  assumes "inj_on sy {1..pt_size L}" and "z \<in> {1..pt_size L}"
  shows "d \<in> set ds \<Longrightarrow>
         fill_table L sy rd ds t d (sy z) = Some (parse_line L d (rd d ! (z - 1)))"
proof (induction ds arbitrary: t)
  case Nil
  then show ?case by simp
next
  case (Cons x xs)
  show ?case
  proof (cases "d \<in> set xs")
    case True
    then show ?thesis by (simp add: fill_table_Cons Cons.IH)
  next
    case False
    with Cons.prems have dx: "x = d" by simp
    have "fill_row L sy d (rd d) [1 ..< pt_size L + 1] t d (sy z) =
        Some (parse_line L d (rd d ! (z - 1)))"
      using assms by (intro fill_row_hit) (simp_all only: numbers_set)
    with False dx show ?thesis by (simp add: fill_table_Cons fill_table_other)
  qed
qed

section \<open>Construction of the table\<close>

lemma magpie_init_ok:
  assumes "\<forall>d\<in>set props. read_table L d = Inr (rd d) \<and> pt_size L \<le> length (rd d)"
    and "\<forall>z\<in>{1..pt_size L}. from_Z L z = Inr (sy z)"
  shows "magpie_init L props =
           Inr \<lparr>all_elemental_props = fill_table L sy rd props (\<lambda>_. Map.empty),
                available_props = props\<rparr>"
  using parse_props_ok [OF assms(2) assms(1), of "\<lambda>_. Map.empty"]
  by (simp add: magpie_init_def magpie_parse_def)

lemma magpie_init_short:
  assumes "\<forall>d\<in>set props. read_table L d = Inr (rd d)"
    and "\<forall>z\<in>{1..pt_size L}. from_Z L z = Inr (sy z)"
    and "\<exists>d\<in>set props. length (rd d) < pt_size L"
  shows "magpie_init L props = Inl IndexError"
  using parse_props_short [OF assms(2) assms(1) assms(3), of "\<lambda>_. Map.empty"]
  by (simp add: magpie_init_def magpie_parse_def)

lemma demo_numbers: "{1..pt_size demo_lib} = {1, 2}"
  by (auto simp: demo_lib_sel)

lemma demo_elements: "\<forall>z\<in>{1..pt_size demo_lib}. from_Z demo_lib z = Inr (demo_symbol z)"
  unfolding demo_numbers by (simp add: demo_lib_sel demo_from_Z_def demo_symbol_def)

lemma demo_symbol_inj: "inj_on demo_symbol {1..pt_size demo_lib}"
  unfolding demo_numbers by (simp add: demo_symbol_def)

lemma demo_read:
  "read_table demo_lib ''Number'' = Inr (demo_lines ''Number'')"
  "read_table demo_lib ''OxidationStates'' = Inr (demo_lines ''OxidationStates'')"
  "read_table demo_lib ''Short'' = Inr (demo_lines ''Short'')"
  by (simp_all add: demo_lib_sel demo_files_def demo_lines_def)

lemma demo_cells:
  "parse_fails demo_lib ''Number'' ''two''"
  "\<not> parse_fails demo_lib ''Number'' ''1.0''"
  "parsed_value demo_lib ''Number'' ''1.0'' = Scalar (Finite 1)"
  "parse_fails demo_lib ''OxidationStates'' ''2 x''"
  "\<not> parse_fails demo_lib ''OxidationStates'' ''1.0 -1''"
  "parsed_value demo_lib ''OxidationStates'' ''1.0 -1'' = FloatList [Finite 1, Finite (- 1)]"
  by (simp_all add: parse_fails_def parsed_value_def split_ws_def is_space_def demo_lib_sel
      demo_float_def)

text \<open>
  C7: when every data file can be read and has a line for every atomic number, the
  construction succeeds and every element has a cell for every property: the cell is
  NaN where the numeric parse of the line fails, and the parsed value elsewhere.
\<close>

theorem unparseable_line_gives_nan:
  assumes "\<forall>d\<in>set props. read_table L d = Inr (rd d) \<and> pt_size L \<le> length (rd d)"
    and "\<forall>z\<in>{1..pt_size L}. from_Z L z = Inr (sy z)"
    and "inj_on sy {1..pt_size L}"
  shows "\<exists>self. magpie_init L props = Inr self \<and> available_props self = props \<and>
           (\<forall>d\<in>set props. \<forall>z\<in>{1..pt_size L}.
              all_elemental_props self d (sy z) =
                Some (if parse_fails L d (rd d ! (z - 1)) then Scalar NaN
                      else parsed_value L d (rd d ! (z - 1))))"
proof -
  let ?self = "\<lparr>all_elemental_props = fill_table L sy rd props (\<lambda>_. Map.empty),
                 available_props = props\<rparr>"
  have "magpie_init L props = Inr ?self" using assms(1,2) by (rule magpie_init_ok)
  moreover have "available_props ?self = props" by simp
  moreover have "\<forall>d\<in>set props. \<forall>z\<in>{1..pt_size L}.
      all_elemental_props ?self d (sy z) =
        Some (if parse_fails L d (rd d ! (z - 1)) then Scalar NaN
              else parsed_value L d (rd d ! (z - 1)))"
  proof (intro ballI)
    fix d z assume "d \<in> set props" "z \<in> {1..pt_size L}"
    with assms(3) have "fill_table L sy rd props (\<lambda>_. Map.empty) d (sy z) =
        Some (parse_line L d (rd d ! (z - 1)))"
      by (intro fill_table_hit)
    then show "all_elemental_props ?self d (sy z) =
        Some (if parse_fails L d (rd d ! (z - 1)) then Scalar NaN
              else parsed_value L d (rd d ! (z - 1)))"
      by (simp add: parse_line_cases)
  qed
  ultimately show ?thesis by blast
qed

theorem unparseable_line_gives_nan_witness:
  "\<exists>self. magpie_init demo_lib [''Number'', ''OxidationStates''] = Inr self
     \<and> all_elemental_props self ''Number'' ''H'' = Some (Scalar (Finite 1))
     \<and> all_elemental_props self ''Number'' ''He'' = Some (Scalar NaN)
     \<and> all_elemental_props self ''OxidationStates'' ''H'' =
         Some (FloatList [Finite 1, Finite (- 1)])
     \<and> all_elemental_props self ''OxidationStates'' ''He'' = Some (Scalar NaN)"
proof -
  have files: "\<forall>d\<in>set [''Number'', ''OxidationStates''].
      read_table demo_lib d = Inr (demo_lines d) \<and> pt_size demo_lib \<le> length (demo_lines d)"
    by (simp add: demo_read) (simp add: demo_lines_def demo_lib_sel)
  from unparseable_line_gives_nan [OF files demo_elements demo_symbol_inj]
  obtain self where init: "magpie_init demo_lib [''Number'', ''OxidationStates''] = Inr self"
    and cells: "\<forall>d\<in>set [''Number'', ''OxidationStates'']. \<forall>z\<in>{1..pt_size demo_lib}.
       all_elemental_props self d (demo_symbol z) =
         Some (if parse_fails demo_lib d (demo_lines d ! (z - 1)) then Scalar NaN
               else parsed_value demo_lib d (demo_lines d ! (z - 1)))"
    by blast
  have l: "demo_lines ''Number'' = [''1.0'', ''two'']"
    "demo_lines ''OxidationStates'' = [''1.0 -1'', ''2 x'']"
    by (simp_all add: demo_lines_def)
  have c: "all_elemental_props self d (demo_symbol z) =
         Some (if parse_fails demo_lib d (demo_lines d ! (z - 1)) then Scalar NaN
               else parsed_value demo_lib d (demo_lines d ! (z - 1)))"
    if "d \<in> set [''Number'', ''OxidationStates'']" and "z \<in> {1..pt_size demo_lib}" for d z
    using bspec [OF bspec [OF cells that(1)] that(2)] .
  have n: "(1::nat) \<in> {1..pt_size demo_lib}" "(2::nat) \<in> {1..pt_size demo_lib}"
    by (simp_all add: demo_lib_sel)
  have m: "''Number'' \<in> set [''Number'', ''OxidationStates'']"
    "''OxidationStates'' \<in> set [''Number'', ''OxidationStates'']"
    by simp_all
  have "all_elemental_props self ''Number'' ''H'' = Some (Scalar (Finite 1))"
    using c [OF m(1) n(1)] by (simp add: demo_symbol_def l demo_cells)
  moreover have "all_elemental_props self ''Number'' ''He'' = Some (Scalar NaN)"
    using c [OF m(1) n(2)] by (simp add: demo_symbol_def l demo_cells)
  moreover have "all_elemental_props self ''OxidationStates'' ''H'' =
      Some (FloatList [Finite 1, Finite (- 1)])"
    using c [OF m(2) n(1)] by (simp add: demo_symbol_def l demo_cells)
  moreover have "all_elemental_props self ''OxidationStates'' ''He'' = Some (Scalar NaN)"
    using c [OF m(2) n(2)] by (simp add: demo_symbol_def l demo_cells)
  ultimately show ?thesis using init by blast
qed

text \<open>
  C10: only a failed float parse is turned into NaN. When some data file has fewer
  lines than the periodic table has elements, the construction fails with
  \<^verbatim>\<open>IndexError\<close>; it succeeds when every file has enough lines.
\<close>

theorem short_file_index_error:
  assumes "\<forall>d\<in>set props. read_table L d = Inr (rd d)"
    and "\<forall>z\<in>{1..pt_size L}. from_Z L z = Inr (sy z)"
  shows "((\<exists>d\<in>set props. length (rd d) < pt_size L) \<longrightarrow>
            magpie_init L props = Inl IndexError)
       \<and> ((\<forall>d\<in>set props. pt_size L \<le> length (rd d)) \<longrightarrow>
            (\<exists>self. magpie_init L props = Inr self))"
proof (intro conjI impI)
  assume "\<exists>d\<in>set props. length (rd d) < pt_size L"
  with assms show "magpie_init L props = Inl IndexError" by (rule magpie_init_short)
next
  assume "\<forall>d\<in>set props. pt_size L \<le> length (rd d)"
  with assms(1) have "\<forall>d\<in>set props. read_table L d = Inr (rd d) \<and> pt_size L \<le> length (rd d)"
    by simp
  from magpie_init_ok [OF this assms(2)] show "\<exists>self. magpie_init L props = Inr self"
    by blast
qed

theorem short_file_index_error_witness:
  "magpie_init demo_lib [''Number'', ''Short''] = Inl IndexError
   \<and> (\<exists>self. magpie_init demo_lib [''Number''] = Inr self)"
proof -
  have r2: "\<forall>d\<in>set [''Number'', ''Short'']. read_table demo_lib d = Inr (demo_lines d)"
    by (simp add: demo_read)
  have r1: "\<forall>d\<in>set [''Number'']. read_table demo_lib d = Inr (demo_lines d)"
    by (simp add: demo_read)
  have short: "\<exists>d\<in>set [''Number'', ''Short'']. length (demo_lines d) < pt_size demo_lib"
    by (simp add: demo_lines_def demo_lib_sel)
  have long: "\<forall>d\<in>set [''Number'']. pt_size demo_lib \<le> length (demo_lines d)"
    by (simp add: demo_lines_def demo_lib_sel)
  from short_file_index_error [OF r2 demo_elements] short
  have "magpie_init demo_lib [''Number'', ''Short''] = Inl IndexError" by blast
  moreover from short_file_index_error [OF r1 demo_elements] long
  have "\<exists>self. magpie_init demo_lib [''Number''] = Inr self" by blast
  ultimately show ?thesis ..
qed

section \<open>Facts about formulas made of groups\<close>

lemma letter_classes:
  "is_letter c \<Longrightarrow> \<not> is_digit c" "is_letter c \<Longrightarrow> \<not> is_sign c" "is_letter c \<Longrightarrow> \<not> is_space c"
  by (auto simp: is_letter_def is_digit_def is_sign_def is_space_def)

lemma digit_classes:
  "is_digit c \<Longrightarrow> \<not> is_letter c" "is_digit c \<Longrightarrow> \<not> is_sign c" "is_digit c \<Longrightarrow> \<not> is_space c"
  by (auto simp: is_letter_def is_digit_def is_sign_def is_space_def)

lemma sign_classes:
  "is_sign c \<Longrightarrow> \<not> is_letter c" "is_sign c \<Longrightarrow> \<not> is_digit c" "is_sign c \<Longrightarrow> \<not> is_space c"
  by (auto simp: is_letter_def is_digit_def is_sign_def is_space_def)

lemma dropWhile_id: "s = [] \<or> \<not> P (hd s) \<Longrightarrow> dropWhile P s = s"
  by (cases s) auto

lemma strip_id:
  assumes "s \<noteq> []" and "\<not> is_space (hd s)" and "\<not> is_space (last s)"
  shows "strip s = s"
proof -
  from assms have "dropWhile is_space s = s" by (simp add: dropWhile_id)
  moreover from assms have "dropWhile is_space (rev s) = rev s"
    by (intro dropWhile_id) (simp add: hd_rev)
  ultimately show ?thesis by (simp add: strip_def)
qed

lemma strip_Nil: "strip [] = []"
  by (simp add: strip_def)

lemma re_split_not_Nil: "re_split P s \<noteq> []"
  by (cases s) (auto split: list.splits)

lemma re_split_outside:
  "\<forall>c\<in>set pre. \<not> P c \<Longrightarrow>
   re_split P (pre @ r) = (pre @ hd (re_split P r)) # tl (re_split P r)"
proof (induction pre)
  case Nil
  then show ?case by (simp add: re_split_not_Nil)
next
  case (Cons c pre)
  then have "re_split P (pre @ r) = (pre @ hd (re_split P r)) # tl (re_split P r)" by simp
  with Cons.prems show ?case by simp
qed

lemma re_split_no_match: "\<forall>c\<in>set s. \<not> P c \<Longrightarrow> re_split P s = [s]"
  using re_split_outside [of s P "[]"] by simp

lemma re_split_run:
  assumes "run \<noteq> []" and "\<forall>c\<in>set run. P c" and "r = [] \<or> \<not> P (hd r)"
  shows "re_split P (run @ r) = [] # re_split P r"
proof -
  from assms(1) obtain c cs where run: "run = c # cs" by (cases run) auto
  with assms(2) have "dropWhile P (cs @ r) = dropWhile P r"
    by (intro dropWhile_append2) simp
  also from assms(3) have "\<dots> = r" by (rule dropWhile_id)
  finally show ?thesis using run assms(2) by simp
qed

lemma re_split_all_match:
  assumes "run \<noteq> []" and "\<forall>c\<in>set run. P c"
  shows "re_split P run = [[], []]"
  using re_split_run [OF assms, of "[]"] by simp

lemma wf_groupD:
  assumes "wf_group L g"
  shows "g_sym g \<noteq> []" and "\<forall>c\<in>set (g_sym g). is_letter c"
    and "element_str L (g_sym g) = Inr (g_sym g)"
    and "\<forall>c\<in>set (g_amt g). is_digit c" and "is_sign (g_sign g)"
    and "g_ox g \<noteq> []" and "\<forall>c\<in>set (g_ox g). is_digit c"
  using assms by (simp_all add: wf_group_def list_all_iff)

lemma formula_of_Nil: "formula_of [] = []"
  by (simp add: formula_of_def)

lemma formula_of_Cons: "formula_of (g # gs) = g_plain g @ g_tok g @ formula_of gs"
  by (simp add: formula_of_def)

lemma plain_tok_seg: "g_plain g @ g_tok g @ r = g_sym g @ g_seg g @ r"
  by (simp add: g_plain_def g_tok_def g_seg_def)

lemma seg_no_letter:
  assumes "wf_group L g"
  shows "\<forall>c\<in>set (g_seg g). \<not> is_letter c"
  using wf_groupD(4,5,7) [OF assms]
  by (auto simp: g_seg_def dest: digit_classes(1) sign_classes(1))

lemma seg_not_Nil: "g_seg g \<noteq> []"
  by (simp add: g_seg_def)

lemma seg_hd:
  assumes "wf_group L g"
  shows "\<not> is_letter (hd (g_seg g @ r))"
proof -
  have "hd (g_seg g @ r) \<in> set (g_seg g)" using seg_not_Nil [of g] by simp
  with seg_no_letter [OF assms] show ?thesis by blast
qed

lemma segments_of_formula:
  "list_all (wf_group L) gs \<Longrightarrow> \<forall>c\<in>set pre. \<not> is_letter c \<Longrightarrow>
   re_split is_letter (pre @ formula_of gs) = pre # map g_seg gs"
proof (induction gs arbitrary: pre)
  case Nil
  then show ?case by (simp add: formula_of_Nil re_split_no_match)
next
  case (Cons g gs)
  from Cons.prems(1) have wf: "wf_group L g" and wfs: "list_all (wf_group L) gs" by simp_all
  have IH: "re_split is_letter (g_seg g @ formula_of gs) = g_seg g # map g_seg gs"
    using wfs seg_no_letter [OF wf] by (rule Cons.IH)
  have "re_split is_letter (g_sym g @ (g_seg g @ formula_of gs)) =
      [] # re_split is_letter (g_seg g @ formula_of gs)"
    using wf_groupD(1,2) [OF wf] seg_hd [OF wf] by (intro re_split_run) simp_all
  with IH have X: "re_split is_letter (g_sym g @ g_seg g @ formula_of gs) =
      [] # g_seg g # map g_seg gs" by simp
  have "re_split is_letter (pre @ (g_sym g @ g_seg g @ formula_of gs)) =
      (pre @ hd (re_split is_letter (g_sym g @ g_seg g @ formula_of gs))) #
        tl (re_split is_letter (g_sym g @ g_seg g @ formula_of gs))"
    using Cons.prems(2) by (rule re_split_outside)
  then show ?case by (simp add: X formula_of_Cons plain_tok_seg)
qed

lemma seg_strip:
  assumes "wf_group L g"
  shows "strip (g_seg g) = g_seg g"
proof (rule strip_id)
  show "g_seg g \<noteq> []" by (rule seg_not_Nil)
  have "hd (g_seg g) \<in> set (g_seg g)" "last (g_seg g) \<in> set (g_seg g)"
    using seg_not_Nil [of g] by simp_all
  moreover have "\<forall>c\<in>set (g_seg g). \<not> is_space c"
    using wf_groupD(4,5,7) [OF assms]
    by (auto simp: g_seg_def dest: digit_classes(3) sign_classes(3))
  ultimately show "\<not> is_space (hd (g_seg g))" "\<not> is_space (last (g_seg g))" by blast+
qed

lemma seg_signed:
  assumes "wf_group L g"
  shows "CHR ''+'' \<in> set (g_seg g) \<or> CHR ''-'' \<in> set (g_seg g)"
  using wf_groupD(5) [OF assms] by (auto simp: g_seg_def is_sign_def)

lemma ox_strip:
  assumes "wf_group L g"
  shows "strip (g_ox g) = g_ox g"
proof (rule strip_id)
  show ne: "g_ox g \<noteq> []" using assms by (rule wf_groupD)
  then have "hd (g_ox g) \<in> set (g_ox g)" "last (g_ox g) \<in> set (g_ox g)" by simp_all
  with wf_groupD(7) [OF assms]
  show "\<not> is_space (hd (g_ox g))" "\<not> is_space (last (g_ox g))"
    by (auto dest: digit_classes(3))
qed

lemma seg_split_signs:
  assumes "wf_group L g"
  shows "re_split is_sign (g_seg g) = [g_amt g, g_ox g]"
proof -
  have ox: "\<forall>c\<in>set (g_ox g). \<not> is_sign c"
    using wf_groupD(7) [OF assms] by (auto dest: digit_classes(2))
  have amt: "\<forall>c\<in>set (g_amt g). \<not> is_sign c"
    using wf_groupD(4) [OF assms] by (auto dest: digit_classes(2))
  have "dropWhile is_sign (g_ox g) = g_ox g"
    using wf_groupD(6) [OF assms] ox by (intro dropWhile_id) simp
  then have "re_split is_sign (g_sign g # g_ox g) = [[], g_ox g]"
    using wf_groupD(5) [OF assms] re_split_no_match [OF ox] by simp
  with re_split_outside [OF amt, of "g_sign g # g_ox g"] show ?thesis
    by (simp add: g_seg_def)
qed

lemma seg_split_digits:
  assumes "wf_group L g"
  shows "re_split is_digit (g_seg g) =
           (if g_amt g = [] then [[g_sign g], []] else [[], [g_sign g], []])"
proof -
  have s: "\<not> is_digit (g_sign g)" using wf_groupD(5) [OF assms] by (rule sign_classes)
  have "re_split is_digit (g_ox g) = [[], []]"
    using wf_groupD(6,7) [OF assms] by (rule re_split_all_match)
  with s have X: "re_split is_digit (g_sign g # g_ox g) = [[g_sign g], []]" by simp
  show ?thesis
  proof (cases "g_amt g = []")
    case True
    with X show ?thesis by (simp add: g_seg_def)
  next
    case False
    from False wf_groupD(4) [OF assms]
    have "re_split is_digit (g_amt g @ (g_sign g # g_ox g)) =
        [] # re_split is_digit (g_sign g # g_ox g)"
      by (rule re_split_run) (simp add: s)
    with False X show ?thesis by (simp add: g_seg_def)
  qed
qed

lemma sign_strip:
  assumes "wf_group L g"
  shows "strip [g_sign g] = [g_sign g]"
  using wf_groupD(5) [OF assms] by (intro strip_id) (simp_all add: sign_classes)

lemma ox_token_seg:
  assumes "wf_group L g"
  shows "ox_token (g_seg g) = Inr (g_tok g)"
  by (simp add: ox_token_def seg_split_signs [OF assms] seg_split_digits [OF assms]
      sign_strip [OF assms] ox_strip [OF assms] strip_Nil g_tok_def)

lemma spec_token_seg:
  assumes "wf_group L g"
  shows "spec_token (g_seg g) = g_tok g"
proof -
  have s: "\<not> is_digit (g_sign g)" using wf_groupD(5) [OF assms] by (rule sign_classes)
  have r: "rev (g_seg g) = rev (g_ox g) @ g_sign g # rev (g_amt g)"
    by (simp add: g_seg_def)
  have ox: "\<forall>c\<in>set (rev (g_ox g)). is_digit c" using wf_groupD(7) [OF assms] by simp
  have "takeWhile is_digit (rev (g_ox g) @ g_sign g # rev (g_amt g)) =
      rev (g_ox g) @ takeWhile is_digit (g_sign g # rev (g_amt g))"
    using ox by (intro takeWhile_append2) blast
  with s have t: "takeWhile is_digit (rev (g_seg g)) = rev (g_ox g)"
    by (simp add: r)
  have "dropWhile is_digit (rev (g_ox g) @ g_sign g # rev (g_amt g)) =
      dropWhile is_digit (g_sign g # rev (g_amt g))"
    using ox by (intro dropWhile_append2) blast
  with s have d: "dropWhile is_digit (rev (g_seg g)) = g_sign g # rev (g_amt g)"
    by (simp add: r)
  show ?thesis by (simp add: spec_token_def t d g_tok_def)
qed

lemma collect_tokens_segs:
  "list_all (wf_group L) gs \<Longrightarrow> collect_tokens (map g_seg gs) = Inr (map g_tok gs)"
proof (induction gs)
  case Nil
  then show ?case by simp
next
  case (Cons g gs)
  then have wf: "wf_group L g" and IH: "collect_tokens (map g_seg gs) = Inr (map g_tok gs)"
    by simp_all
  from seg_signed [OF wf] show ?case
    by (simp add: seg_strip [OF wf] seg_not_Nil ox_token_seg [OF wf] IH)
qed

lemma collect_tokens_blank: "collect_tokens ([] # nas) = collect_tokens nas"
  by (simp add: strip_Nil)

lemma split_first_here:
  assumes "sep \<noteq> []"
  shows "\<forall>c\<in>set pre. c \<noteq> hd sep \<Longrightarrow> split_first sep (pre @ sep @ rest) = Some (pre, rest)"
proof (induction pre)
  case Nil
  from assms obtain c cs where "sep = c # cs" by (cases sep) auto
  then show ?case by simp
next
  case (Cons c pre)
  then have IH: "split_first sep (pre @ sep @ rest) = Some (pre, rest)" by simp
  from assms obtain s ss where sep: "sep = s # ss" by (cases sep) auto
  with Cons.prems have "c \<noteq> s" by simp
  then have "take (length sep) (c # pre @ sep @ rest) \<noteq> sep" by (simp add: sep)
  with IH show ?case by simp
qed

lemma plain_unsigned:
  assumes "wf_group L g"
  shows "\<forall>c\<in>set (g_plain g). c \<noteq> hd (g_tok g)"
proof
  fix c assume "c \<in> set (g_plain g)"
  then have "is_letter c \<or> is_digit c"
    using wf_groupD(2,4) [OF assms] by (auto simp: g_plain_def)
  then have "\<not> is_sign c" by (auto dest: letter_classes(2) digit_classes(2))
  with wf_groupD(5) [OF assms] show "c \<noteq> hd (g_tok g)" by (auto simp: g_tok_def)
qed

lemma tok_not_Nil: "g_tok g \<noteq> []"
  by (simp add: g_tok_def)

lemma split_first_group:
  assumes "wf_group L g"
  shows "split_first (g_tok g) (g_plain g @ g_tok g @ rest) = Some (g_plain g, rest)"
  using tok_not_Nil plain_unsigned [OF assms] by (rule split_first_here)

lemma split_plain_groups:
  "list_all (wf_group L) gs \<Longrightarrow> split_plain (formula_of gs) (map g_tok gs) = Inr (map g_plain gs)"
proof (induction gs)
  case Nil
  then show ?case by simp
next
  case (Cons g gs)
  then have wf: "wf_group L g"
    and IH: "split_plain (formula_of gs) (map g_tok gs) = Inr (map g_plain gs)" by simp_all
  show ?case
    by (simp add: formula_of_Cons split_unpack_def tok_not_Nil split_first_group [OF wf] IH)
qed

lemma spec_pieces_groups:
  "list_all (wf_group L) gs \<Longrightarrow>
   spec_pieces (formula_of gs) (map g_tok gs) = map g_plain gs @ [[]]"
proof (induction gs)
  case Nil
  then show ?case by (simp add: formula_of_Nil)
next
  case (Cons g gs)
  then have wf: "wf_group L g"
    and IH: "spec_pieces (formula_of gs) (map g_tok gs) = map g_plain gs @ [[]]" by simp_all
  show ?case by (simp add: formula_of_Cons split_first_group [OF wf] IH)
qed

lemma re_split1_head:
  "\<forall>c\<in>set pre. \<not> P c \<Longrightarrow> \<forall>c\<in>set ds. P c \<Longrightarrow>
   (case re_split1 P (pre @ ds) of [] \<Rightarrow> [] | p # _ \<Rightarrow> p) = pre"
proof (induction pre)
  case Nil
  then show ?case by (cases ds) simp_all
next
  case (Cons c pre)
  then have "(case re_split1 P (pre @ ds) of [] \<Rightarrow> [] | p # _ \<Rightarrow> p) = pre" by simp
  with Cons.prems(1) show ?case by (simp split: list.splits)
qed

lemma plain_strip:
  assumes "wf_group L g"
  shows "strip (g_plain g) = g_plain g"
proof (rule strip_id)
  show ne: "g_plain g \<noteq> []" using wf_groupD(1) [OF assms] by (simp add: g_plain_def)
  then have "hd (g_plain g) \<in> set (g_plain g)" "last (g_plain g) \<in> set (g_plain g)"
    by simp_all
  moreover have "\<forall>c\<in>set (g_plain g). \<not> is_space c"
    using wf_groupD(2,4) [OF assms]
    by (auto simp: g_plain_def dest: letter_classes(3) digit_classes(3))
  ultimately show "\<not> is_space (hd (g_plain g))" "\<not> is_space (last (g_plain g))" by blast+
qed

lemma plain_element:
  assumes "wf_group L g"
  shows "(case re_split1 is_digit (strip (g_plain g)) of [] \<Rightarrow> [] | p # _ \<Rightarrow> p) = g_sym g"
proof -
  have "\<forall>c\<in>set (g_sym g). \<not> is_digit c"
    using wf_groupD(2) [OF assms] by (auto dest: letter_classes(1))
  from re_split1_head [OF this wf_groupD(4) [OF assms]]
  have "(case re_split1 is_digit (g_plain g) of [] \<Rightarrow> [] | p # _ \<Rightarrow> p) = g_sym g"
    by (simp add: g_plain_def)
  then show ?thesis by (simp add: plain_strip [OF assms])
qed

lemma plain_letters:
  assumes "wf_group L g"
  shows "takeWhile is_letter (g_plain g) = g_sym g"
proof -
  have "takeWhile is_letter (g_sym g @ g_amt g) = g_sym g @ takeWhile is_letter (g_amt g)"
    using wf_groupD(2) [OF assms] by (intro takeWhile_append2) blast
  moreover have "takeWhile is_letter (g_amt g) = []"
    using wf_groupD(4) [OF assms] by (cases "g_amt g") (auto dest: digit_classes(1))
  ultimately show ?thesis by (simp add: g_plain_def)
qed

lemma tok_strip:
  assumes "wf_group L g"
  shows "strip (g_tok g) = g_tok g"
proof (rule strip_id)
  show "g_tok g \<noteq> []" by (rule tok_not_Nil)
  show "\<not> is_space (hd (g_tok g))"
    using wf_groupD(5) [OF assms] by (simp add: g_tok_def sign_classes)
  have "last (g_tok g) = last (g_ox g)" using wf_groupD(6) [OF assms] by (simp add: g_tok_def)
  moreover have "last (g_ox g) \<in> set (g_ox g)" using wf_groupD(6) [OF assms] by simp
  ultimately show "\<not> is_space (last (g_tok g))"
    using wf_groupD(7) [OF assms] by (auto dest: digit_classes(3))
qed

lemma tok_int:
  assumes "wf_group L g"
  shows "py_int_of_str (g_tok g) = Inr (token_value (g_tok g))"
proof -
  have "list_all is_digit (g_ox g)" using wf_groupD(7) [OF assms] by (simp add: list_all_iff)
  with wf_groupD(5,6) [OF assms] show ?thesis
    by (simp add: py_int_of_str_def tok_strip [OF assms] token_value_def)
       (simp add: g_tok_def)
qed

lemma build_dict_groups:
  "list_all (wf_group L) gs \<Longrightarrow>
   build_dict L (zip (map g_plain gs) (map g_tok gs)) d =
     Inr (foldl (\<lambda>d g. dict_set (g_sym g) (token_value (g_tok g)) d) d gs)"
proof (induction gs arbitrary: d)
  case Nil
  then show ?case by simp
next
  case (Cons g gs)
  then have wf: "wf_group L g" and wfs: "list_all (wf_group L) gs" by simp_all
  show ?case
    by (simp add: plain_element [OF wf] tok_int [OF wf] wf_groupD(3) [OF wf] Cons.IH [OF wfs])
qed

lemma spec_states_groups:
  "list_all (wf_group L) gs \<Longrightarrow>
   foldl (\<lambda>d (g, t). dict_set (takeWhile is_letter g) (token_value t) d) d
     (zip (map g_plain gs @ [[]]) (map g_tok gs)) =
   foldl (\<lambda>d g. dict_set (g_sym g) (token_value (g_tok g)) d) d gs"
proof (induction gs arbitrary: d)
  case Nil
  then show ?case by simp
next
  case (Cons g gs)
  then have wf: "wf_group L g" and wfs: "list_all (wf_group L) gs" by simp_all
  show ?case by (simp add: plain_letters [OF wf] Cons.IH [OF wfs])
qed

lemma segments_of_groups:
  assumes "list_all (wf_group L) gs"
  shows "re_split is_letter (formula_of gs) = [] # map g_seg gs"
  using segments_of_formula [OF assms, of "[]"] by simp

lemma tokens_of_formula:
  assumes "list_all (wf_group L) gs"
  shows "collect_tokens (re_split is_letter (formula_of gs)) = Inr (map g_tok gs)"
  unfolding segments_of_groups [OF assms] collect_tokens_blank
  using assms by (rule collect_tokens_segs)

lemma code_on_groups:
  assumes "gs \<noteq> []" and "list_all (wf_group L) gs"
  shows "get_composition_oxidation_state L (formula_of gs) =
           with_states L (plain_of gs) (states_of gs)"
proof -
  have "get_composition_oxidation_state L (formula_of gs) =
      (case split_plain (formula_of gs) (map g_tok gs) of
         Inl e \<Rightarrow> Inl e
       | Inr formula_plain \<Rightarrow>
           (case build_dict L (zip formula_plain (map g_tok gs)) [] of
              Inl e \<Rightarrow> Inl e
            | Inr d \<Rightarrow> with_states L (concat formula_plain) d))"
    unfolding get_composition_oxidation_state_def Let_def tokens_of_formula [OF assms(2)]
    using assms(1) by (simp add: re_split_not_Nil)
  also have "\<dots> = with_states L (plain_of gs) (states_of gs)"
    unfolding split_plain_groups [OF assms(2)]
    by (simp add: build_dict_groups [OF assms(2)] plain_of_def states_of_def)
  finally show ?thesis .
qed

lemma spec_tokens_of_formula:
  assumes "list_all (wf_group L) gs"
  shows "map spec_token
           (filter (\<lambda>s. CHR ''+'' \<in> set s \<or> CHR ''-'' \<in> set s)
              (re_split is_letter (formula_of gs))) = map g_tok gs"
proof -
  have f: "filter (\<lambda>s. CHR ''+'' \<in> set s \<or> CHR ''-'' \<in> set s) (map g_seg gs) = map g_seg gs"
    using assms by (intro filter_True) (auto simp: list_all_iff dest: seg_signed)
  have m: "map spec_token (map g_seg gs) = map g_tok gs"
    using assms
  proof (induction gs)
    case Nil
    then show ?case by simp
  next
    case (Cons g gs)
    then have "wf_group L g" and "map spec_token (map g_seg gs) = map g_tok gs" by simp_all
    with spec_token_seg [of L g] show ?case by simp
  qed
  show ?thesis unfolding segments_of_groups [OF assms] using f m by simp
qed

lemma spec_on_groups:
  assumes "gs \<noteq> []" and "list_all (wf_group L) gs"
  shows "spec_parse is_letter L (formula_of gs) = with_states L (plain_of gs) (states_of gs)"
proof -
  have "spec_parse is_letter L (formula_of gs) =
      with_states L (concat (spec_pieces (formula_of gs) (map g_tok gs)))
        (spec_states (zip (spec_pieces (formula_of gs) (map g_tok gs)) (map g_tok gs)))"
    unfolding spec_parse_def Let_def spec_tokens_of_formula [OF assms(2)]
    using assms(1) by simp
  also have "\<dots> = with_states L (plain_of gs) (states_of gs)"
    unfolding spec_pieces_groups [OF assms(2)] spec_states_def
      spec_states_groups [OF assms(2)]
    by (simp add: plain_of_def states_of_def)
  finally show ?thesis .
qed

lemma demo_groups_wf: "list_all (wf_group demo_lib) fe2o3_groups"
  by (simp add: fe2o3_groups_def wf_group_def is_letter_def is_digit_def is_sign_def
      demo_lib_sel demo_element_def)

lemma demo_groups:
  "fe2o3_groups \<noteq> []"
  "formula_of fe2o3_groups = ''Fe2+3O3-2''" "plain_of fe2o3_groups = ''Fe2O3''"
  "states_of fe2o3_groups = [(''Fe'', 3), (''O'', - 2)]"
  by (simp_all add: fe2o3_groups_def formula_of_def plain_of_def g_plain_def g_tok_def
      states_of_def dict_set_def token_value_def digits_val_def digit_val_def)

section \<open>The oxidation-state parser against its algorithm\<close>

text \<open>
  C3, as the code has it: on every formula that is a non-empty sequence of groups
  (element symbol, optional amount digits, sign, oxidation digits) the parser computes
  what the algorithm of the specification computes when the segments are separated by
  runs of letters of either case: the segments between the letter runs, from each
  signed segment the trailing digits with the sign before them, the pieces left by
  removing the first occurrence of each token in order, and the map from the leading
  letters of each piece to the value of its token. The result is the composition of
  the plain formula with the states of the groups.
\<close>

theorem parser_follows_algorithm:
  assumes "gs \<noteq> []" and "list_all (wf_group L) gs"
  shows "get_composition_oxidation_state L (formula_of gs) =
           spec_parse is_letter L (formula_of gs)
       \<and> get_composition_oxidation_state L (formula_of gs) =
           (case parse_formula L (plain_of gs) of
              Inl e \<Rightarrow> Inl e
            | Inr c \<Rightarrow> Inr (c, states_of gs))"
  using code_on_groups [OF assms] spec_on_groups [OF assms] by (simp add: with_states_def)

theorem parser_follows_algorithm_witness:
  "get_composition_oxidation_state demo_lib ''Fe2+3O3-2'' =
     spec_parse is_letter demo_lib ''Fe2+3O3-2''
   \<and> get_composition_oxidation_state demo_lib ''Fe2+3O3-2'' =
     Inr (fe2o3, [(''Fe'', 3), (''O'', - 2)])"
proof -
  note inst = parser_follows_algorithm [OF demo_groups(1) demo_groups_wf]
  from inst have a: "get_composition_oxidation_state demo_lib ''Fe2+3O3-2'' =
      spec_parse is_letter demo_lib ''Fe2+3O3-2''"
    unfolding demo_groups(2) by (rule conjunct1)
  from inst have "get_composition_oxidation_state demo_lib ''Fe2+3O3-2'' =
      (case parse_formula demo_lib ''Fe2O3'' of
         Inl e \<Rightarrow> Inl e
       | Inr c \<Rightarrow> Inr (c, [(''Fe'', 3), (''O'', - 2)]))"
    unfolding demo_groups(2,3,4) by (rule conjunct2)
  then have b: "get_composition_oxidation_state demo_lib ''Fe2+3O3-2'' =
      Inr (fe2o3, [(''Fe'', 3), (''O'', - 2)])"
    by (simp add: demo_lib_sel demo_parse_def)
  from a b show ?thesis by (rule conjI)
qed

text \<open>
  The claim as the specification words it fails: split on runs of lowercase letters
  only, \<^verbatim>\<open>"Fe2+3O3-2"\<close> has the segments \<^verbatim>\<open>F\<close> and \<^verbatim>\<open>2+3O3-2\<close>, a single token
  \<^verbatim>\<open>-2\<close> and the plain formula \<^verbatim>\<open>Fe2+3O3\<close>, where the code, whose pattern ignores case,
  finds both tokens.
\<close>

theorem lowercase_split_counterexample:
  "re_split is_lower ''Fe2+3O3-2'' = [''F'', ''2+3O3-2'']
   \<and> re_split is_letter ''Fe2+3O3-2'' = ['''', ''2+3'', ''3-2'']
   \<and> spec_parse is_lower demo_lib ''Fe2+3O3-2'' = Inl (CompositionError ''Fe2+3O3'')
   \<and> get_composition_oxidation_state demo_lib ''Fe2+3O3-2'' =
       Inr (fe2o3, [(''Fe'', 3), (''O'', - 2)])
   \<and> spec_parse is_lower demo_lib ''Fe2+3O3-2'' \<noteq>
       get_composition_oxidation_state demo_lib ''Fe2+3O3-2''"
proof -
  have s: "re_split is_lower ''Fe2+3O3-2'' = [''F'', ''2+3O3-2'']"
    by (simp add: is_lower_def)
  have l: "re_split is_letter ''Fe2+3O3-2'' = ['''', ''2+3'', ''3-2'']"
    by (simp add: is_letter_def)
  have t: "spec_token ''2+3O3-2'' = ''-2''"
    by (simp add: spec_token_def is_digit_def)
  have p: "spec_pieces ''Fe2+3O3-2'' [''-2''] = [''Fe2+3O3'', '''']"
    by simp
  have "spec_parse is_lower demo_lib ''Fe2+3O3-2'' =
      with_states demo_lib (concat (spec_pieces ''Fe2+3O3-2'' [''-2'']))
        (spec_states (zip (spec_pieces ''Fe2+3O3-2'' [''-2'']) [''-2'']))"
    unfolding spec_parse_def Let_def s by (simp add: t)
  then have e: "spec_parse is_lower demo_lib ''Fe2+3O3-2'' =
      Inl (CompositionError ''Fe2+3O3'')"
    unfolding p by (simp add: with_states_def demo_lib_sel demo_parse_def)
  have "spec_parse is_lower demo_lib ''Fe2+3O3-2'' \<noteq>
      get_composition_oxidation_state demo_lib ''Fe2+3O3-2''"
    unfolding e demo_state_Fe2O3 by simp
  with s l e demo_state_Fe2O3 show ?thesis by (intro conjI)
qed

text \<open>
  Outside the formulas made of groups the code and the algorithm part: the code drops
  the text after the last token, and takes as sign the last non-blank text between
  digit runs.
\<close>

lemma parser_outside_groups:
  "split_plain ''Na+1Cl'' [''+1''] = Inr [''Na'']"
  "concat (spec_pieces ''Na+1Cl'' [''+1'']) = ''NaCl''"
  "ox_token ''2 + 3'' = Inr ''+3''"
  "spec_token ''2 + 3'' = '' 3''"
  by (simp_all add: split_unpack_def ox_token_def spec_token_def is_digit_def is_sign_def
      is_space_def strip_def)

end
